theory Spec2Isabelle
  imports Main "HOL-Library.Word"
begin

section \<open>Solidity values and failures\<close>

text \<open>
  The three contracts of the repository (TaskRegistry, PayoutSplitter, VerifierGateway)
  are compiled with Solidity 0.8: \<open>uint256\<close> arithmetic is checked, an overflow aborts
  the call with a panic, and an aborted call leaves the storage as it was. A call is
  modelled as a function from the storage before the call to either the failure or the
  storage after it; \<open>msg.sender\<close> and \<open>block.timestamp\<close> are parameters.
\<close>

type_synonym uint256 = "256 word"
type_synonym address = "160 word"

text \<open>
  One constructor per revert reason of the source; the comment gives the message of the
  \<open>require\<close> it stands for.
\<close>

datatype error =
    PanicOverflow                 \<comment> \<open>checked arithmetic, Panic(0x11)\<close>
  | OwnableUnauthorizedAccount    \<comment> \<open>the onlyOwner modifier of OpenZeppelin's Ownable\<close>
  | OwnableInvalidOwner           \<comment> \<open>transferOwnership to address(0)\<close>
  | RewardAmountZero              \<comment> \<open>"Reward amount must be greater than 0"\<close>
  | InvalidRewardToken            \<comment> \<open>"Invalid reward token address"\<close>
  | RewardTokenNotSupported       \<comment> \<open>"Reward token not supported"\<close>
  | MaxParticipantsZero           \<comment> \<open>"Max participants must be greater than 0"\<close>
  | DurationZero                  \<comment> \<open>"Duration must be greater than 0"\<close>
  | TaskNotActive                 \<comment> \<open>"Task is not active"\<close>
  | TaskNotInTimeRange            \<comment> \<open>"Task not in valid time range"\<close>
  | TaskFull                      \<comment> \<open>"Task is full"\<close>
  | TaskAlreadyCompleted          \<comment> \<open>"Task already completed by user"\<close>
  | OnlyVerificationOracle        \<comment> \<open>"Only verification oracle can verify"\<close>
  | TaskNotCompleted              \<comment> \<open>"Task not completed by user"\<close>
  | TaskDoesNotExist              \<comment> \<open>"Task does not exist"\<close>
  | InvalidOracleAddress          \<comment> \<open>"Invalid oracle address"\<close>
  | InvalidSplitterAddress        \<comment> \<open>"Invalid splitter address"\<close>
  | OnlyTaskRegistryRequest       \<comment> \<open>"Only task registry can request verification"\<close>
  | NoOracleForType               \<comment> \<open>"No oracle for verification type"\<close>
  | OnlyAuthorizedOracles         \<comment> \<open>"Only authorized oracles can complete verification"\<close>
  | InvalidRequestId              \<comment> \<open>"Invalid request ID"\<close>
  | RequestAlreadyProcessed       \<comment> \<open>"Request already processed"\<close>
  | InvalidSybilScore             \<comment> \<open>"Invalid sybil score"\<close>
  | OracleNotRegistered           \<comment> \<open>"Oracle not registered"\<close>
  | InvalidRegistryAddress        \<comment> \<open>"Invalid registry address"\<close>
  | UserAlreadyRegistered         \<comment> \<open>"User already registered"\<close>
  | InvalidReferralCode           \<comment> \<open>"Invalid referral code"\<close>
  | CannotReferYourself           \<comment> \<open>"Cannot refer yourself"\<close>
  | OnlyTaskRegistryPayout        \<comment> \<open>"Only task registry can trigger payout"\<close>
  | TokenNotSupported             \<comment> \<open>"Token not supported"\<close>
  | InvalidRewardAmount           \<comment> \<open>"Invalid reward amount"\<close>
  | InsufficientContractBalance   \<comment> \<open>"Insufficient contract balance"\<close>
  | InvalidWalletAddress          \<comment> \<open>"Invalid wallet address"\<close>
  | ERC20InsufficientBalance      \<comment> \<open>the token refuses a transfer above the balance\<close>

text \<open>Checked \<open>+\<close> and \<open>*\<close> of Solidity 0.8 on \<open>uint256\<close>.\<close>

definition checked_add :: "uint256 \<Rightarrow> uint256 \<Rightarrow> error + uint256" where
  "checked_add a b = (if unat a + unat b < 2 ^ 256 then Inr (a + b) else Inl PanicOverflow)"

definition checked_mul :: "uint256 \<Rightarrow> uint256 \<Rightarrow> error + uint256" where
  "checked_mul a b = (if unat a * unat b < 2 ^ 256 then Inr (a * b) else Inl PanicOverflow)"

text \<open>Sequencing of calls that may abort: the first failure is the result.\<close>

definition bind_err :: "error + 'a \<Rightarrow> ('a \<Rightarrow> error + 'b) \<Rightarrow> error + 'b" where
  "bind_err m f = (case m of Inl e \<Rightarrow> Inl e | Inr x \<Rightarrow> f x)"

section \<open>TaskRegistry\<close>

datatype TaskCategory = SWAP | BRIDGE | SOCIAL | DEFI | NFT | CUSTOM

datatype TaskStatus = ACTIVE | PAUSED | COMPLETED | CANCELLED

record Task =
  task_id :: uint256
  advertiser :: address
  name :: string
  description :: string
  category :: TaskCategory
  status :: TaskStatus
  rewardAmount :: uint256
  rewardToken :: address
  maxParticipants :: uint256
  currentParticipants :: uint256
  startTime :: uint256
  endTime :: uint256
  verificationCriteria :: string
  requiresKYC :: bool
  sybilThreshold :: uint256

record TaskCompletion =
  user :: address
  taskId :: uint256
  completed :: bool
  verified :: bool
  completionTime :: uint256
  proofData :: string
  sybilScore :: uint256

text \<open>
  A Solidity mapping is total: a key never written reads as the zero value of the value
  type. These are the zero values of the two structs (the first member of an enum is its
  zero value).
\<close>

definition zero_Task :: Task where
  "zero_Task = \<lparr> task_id = 0, advertiser = 0, name = [], description = [],
     category = SWAP, status = ACTIVE, rewardAmount = 0, rewardToken = 0,
     maxParticipants = 0, currentParticipants = 0, startTime = 0, endTime = 0,
     verificationCriteria = [], requiresKYC = False, sybilThreshold = 0 \<rparr>"

definition zero_TaskCompletion :: TaskCompletion where
  "zero_TaskCompletion = \<lparr> user = 0, taskId = 0, completed = False, verified = False,
     completionTime = 0, proofData = [], sybilScore = 0 \<rparr>"

record registry =
  owner :: address
  nextTaskId :: uint256
  tasks :: "uint256 \<Rightarrow> Task"
  taskCompletions :: "uint256 \<Rightarrow> address \<Rightarrow> TaskCompletion"
  userCompletedTasks :: "address \<Rightarrow> uint256 list"
  userTotalEarnings :: "address \<Rightarrow> uint256"
  verificationOracle :: address
  payoutSplitter :: address
  supportedTokens :: "address \<Rightarrow> bool"

text \<open>The constructor: \<open>nextTaskId = 1\<close>, every mapping empty, the deployer is the owner.\<close>

definition registry_constructor :: "address \<Rightarrow> address \<Rightarrow> address \<Rightarrow> registry" where
  "registry_constructor sender oracle splitter =
     \<lparr> owner = sender, nextTaskId = 1, tasks = (\<lambda>_. zero_Task),
       taskCompletions = (\<lambda>_ _. zero_TaskCompletion),
       userCompletedTasks = (\<lambda>_. []), userTotalEarnings = (\<lambda>_. 0),
       verificationOracle = oracle, payoutSplitter = splitter,
       supportedTokens = (\<lambda>_. False) \<rparr>"

definition createTask ::
  "registry \<Rightarrow> address \<Rightarrow> uint256 \<Rightarrow> string \<Rightarrow> string \<Rightarrow> TaskCategory \<Rightarrow> uint256 \<Rightarrow> address
     \<Rightarrow> uint256 \<Rightarrow> uint256 \<Rightarrow> string \<Rightarrow> bool \<Rightarrow> uint256 \<Rightarrow> error + (registry \<times> uint256)" where
  "createTask s sender now nm descr cat reward token maxP duration criteria kyc threshold =
     (if sender \<noteq> owner s then Inl OwnableUnauthorizedAccount
      else if \<not> reward > 0 then Inl RewardAmountZero
      else if \<not> token \<noteq> 0 then Inl InvalidRewardToken
      else if \<not> supportedTokens s token then Inl RewardTokenNotSupported
      else if \<not> maxP > 0 then Inl MaxParticipantsZero
      else if \<not> duration > 0 then Inl DurationZero
      else bind_err (checked_add (nextTaskId s) 1) (\<lambda>next'.
           bind_err (checked_add now duration) (\<lambda>endT.
             let tid = nextTaskId s in
             Inr (s\<lparr> nextTaskId := next',
                     tasks := (tasks s)(tid :=
                       \<lparr> task_id = tid, advertiser = sender, name = nm, description = descr,
                         category = cat, status = ACTIVE, rewardAmount = reward,
                         rewardToken = token, maxParticipants = maxP,
                         currentParticipants = 0, startTime = now, endTime = endT,
                         verificationCriteria = criteria, requiresKYC = kyc,
                         sybilThreshold = threshold \<rparr>) \<rparr>, tid))))"

text \<open>
  \<open>completeTask\<close>. Its \<open>nonReentrant\<close> guard never fires: the body makes no external
  call (\<open>_triggerVerification\<close> only emits an event).
\<close>

definition completeTask ::
  "registry \<Rightarrow> address \<Rightarrow> uint256 \<Rightarrow> uint256 \<Rightarrow> string \<Rightarrow> error + registry" where
  "completeTask s sender now tid pdata =
     (let task = tasks s tid in
      if \<not> status task = ACTIVE then Inl TaskNotActive
      else if \<not> (now \<ge> startTime task \<and> now \<le> endTime task) then Inl TaskNotInTimeRange
      else if \<not> currentParticipants task < maxParticipants task then Inl TaskFull
      else if \<not> \<not> completed (taskCompletions s tid sender) then Inl TaskAlreadyCompleted
      else bind_err (checked_add (currentParticipants task) 1) (\<lambda>count'.
           Inr (s\<lparr> taskCompletions := (taskCompletions s)(tid := (taskCompletions s tid)(sender :=
                      \<lparr> user = sender, taskId = tid, completed = True, verified = False,
                        completionTime = now, proofData = pdata, sybilScore = 0 \<rparr>)),
                   tasks := (tasks s)(tid := task\<lparr> currentParticipants := count' \<rparr>),
                   userCompletedTasks := (userCompletedTasks s)(sender :=
                      userCompletedTasks s sender @ [tid]) \<rparr>)))"

text \<open>\<open>_triggerPayout\<close>: the reward of the task is added to the user's total earnings.\<close>

definition triggerPayout :: "registry \<Rightarrow> uint256 \<Rightarrow> address \<Rightarrow> error + registry" where
  "triggerPayout s tid u =
     bind_err (checked_add (userTotalEarnings s u) (rewardAmount (tasks s tid))) (\<lambda>total'.
       Inr (s\<lparr> userTotalEarnings := (userTotalEarnings s)(u := total') \<rparr>))"

definition verifyTaskCompletion ::
  "registry \<Rightarrow> address \<Rightarrow> uint256 \<Rightarrow> address \<Rightarrow> bool \<Rightarrow> uint256 \<Rightarrow> error + registry" where
  "verifyTaskCompletion s sender tid u vfd score =
     (if \<not> sender = verificationOracle s then Inl OnlyVerificationOracle
      else if \<not> completed (taskCompletions s tid u) then Inl TaskNotCompleted
      else
        let s1 = s\<lparr> taskCompletions := (taskCompletions s)(tid := (taskCompletions s tid)(u :=
                     (taskCompletions s tid u)\<lparr> verified := vfd, sybilScore := score \<rparr>)) \<rparr>
        in if vfd \<and> score \<ge> sybilThreshold (tasks s1 tid) then triggerPayout s1 tid u
           else Inr s1)"

definition updateTaskStatus ::
  "registry \<Rightarrow> address \<Rightarrow> uint256 \<Rightarrow> TaskStatus \<Rightarrow> error + registry" where
  "updateTaskStatus s sender tid newStatus =
     (if sender \<noteq> owner s then Inl OwnableUnauthorizedAccount
      else if \<not> tid < nextTaskId s then Inl TaskDoesNotExist
      else Inr (s\<lparr> tasks := (tasks s)(tid := (tasks s tid)\<lparr> status := newStatus \<rparr>) \<rparr>))"

definition setVerificationOracle :: "registry \<Rightarrow> address \<Rightarrow> address \<Rightarrow> error + registry" where
  "setVerificationOracle s sender oracle =
     (if sender \<noteq> owner s then Inl OwnableUnauthorizedAccount
      else if \<not> oracle \<noteq> 0 then Inl InvalidOracleAddress
      else Inr (s\<lparr> verificationOracle := oracle \<rparr>))"

definition setPayoutSplitter :: "registry \<Rightarrow> address \<Rightarrow> address \<Rightarrow> error + registry" where
  "setPayoutSplitter s sender splitter =
     (if sender \<noteq> owner s then Inl OwnableUnauthorizedAccount
      else if \<not> splitter \<noteq> 0 then Inl InvalidSplitterAddress
      else Inr (s\<lparr> payoutSplitter := splitter \<rparr>))"

definition addSupportedToken :: "registry \<Rightarrow> address \<Rightarrow> address \<Rightarrow> error + registry" where
  "addSupportedToken s sender token =
     (if sender \<noteq> owner s then Inl OwnableUnauthorizedAccount
      else Inr (s\<lparr> supportedTokens := (supportedTokens s)(token := True) \<rparr>))"

text \<open>
  The two state-changing functions TaskRegistry inherits from OpenZeppelin's Ownable
  (imported, not part of the repository): handing the ownership over and giving it up.
\<close>

definition transferOwnership :: "registry \<Rightarrow> address \<Rightarrow> address \<Rightarrow> error + registry" where
  "transferOwnership s sender newOwner =
     (if sender \<noteq> owner s then Inl OwnableUnauthorizedAccount
      else if newOwner = 0 then Inl OwnableInvalidOwner
      else Inr (s\<lparr> owner := newOwner \<rparr>))"

definition renounceOwnership :: "registry \<Rightarrow> address \<Rightarrow> error + registry" where
  "renounceOwnership s sender =
     (if sender \<noteq> owner s then Inl OwnableUnauthorizedAccount
      else Inr (s\<lparr> owner := 0 \<rparr>))"

subsection \<open>Transactions against the registry\<close>

text \<open>
  Every state-changing external function of TaskRegistry, as a call. A transaction is a
  call with its \<open>msg.sender\<close> and \<open>block.timestamp\<close>; a transaction that aborts leaves the
  storage unchanged, and the next one runs on the same storage.
\<close>

datatype registry_call =
    CreateTask string string TaskCategory uint256 address uint256 uint256 string bool uint256
  | CompleteTask uint256 string
  | VerifyTaskCompletion uint256 address bool uint256
  | UpdateTaskStatus uint256 TaskStatus
  | SetVerificationOracle address
  | SetPayoutSplitter address
  | AddSupportedToken address
  | TransferOwnership address
  | RenounceOwnership

fun registry_step :: "registry \<Rightarrow> address \<Rightarrow> uint256 \<Rightarrow> registry_call \<Rightarrow> error + registry" where
  "registry_step s sender now (CreateTask nm descr cat reward token maxP duration criteria kyc thr) =
     bind_err (createTask s sender now nm descr cat reward token maxP duration criteria kyc thr)
       (\<lambda>r. Inr (fst r))"
| "registry_step s sender now (CompleteTask tid pdata) = completeTask s sender now tid pdata"
| "registry_step s sender now (VerifyTaskCompletion tid u vfd score) =
     verifyTaskCompletion s sender tid u vfd score"
| "registry_step s sender now (UpdateTaskStatus tid st) = updateTaskStatus s sender tid st"
| "registry_step s sender now (SetVerificationOracle a) = setVerificationOracle s sender a"
| "registry_step s sender now (SetPayoutSplitter a) = setPayoutSplitter s sender a"
| "registry_step s sender now (AddSupportedToken a) = addSupportedToken s sender a"
| "registry_step s sender now (TransferOwnership a) = transferOwnership s sender a"
| "registry_step s sender now RenounceOwnership = renounceOwnership s sender"

definition registry_tx :: "registry \<Rightarrow> address \<times> uint256 \<times> registry_call \<Rightarrow> registry" where
  "registry_tx s t =
     (case registry_step s (fst t) (fst (snd t)) (snd (snd t)) of
        Inl e \<Rightarrow> s
      | Inr s' \<Rightarrow> s')"

fun registry_run :: "registry \<Rightarrow> (address \<times> uint256 \<times> registry_call) list \<Rightarrow> registry" where
  "registry_run s [] = s"
| "registry_run s (t # ts) = registry_run (registry_tx s t) ts"

text \<open>
  A deployment used for the concrete runs below: account 1 deploys the registry with
  oracle 2 and splitter 3, allows token 9, and at time 1000 creates a task (its id is 1)
  with reward 100, a cap of one participant, a duration of 500 and a minimum score of 50.
  Account 7 then completes the task at time 1001.
\<close>

definition demo_setup :: "(address \<times> uint256 \<times> registry_call) list" where
  "demo_setup =
     [(1, 999, AddSupportedToken 9),
      (1, 1000, CreateTask ''swap'' ''swap once'' SWAP 100 9 1 500 ''{}'' False 50),
      (7, 1001, CompleteTask 1 ''0xabc'')]"

definition demo_registry :: registry where
  "demo_registry = registry_run (registry_constructor 1 2 3) demo_setup"

text \<open>
  Completions submitted one after the other for the same task, each with its sender, its
  time and its proof; the first that aborts is the result.
\<close>

fun complete_all :: "registry \<Rightarrow> uint256 \<Rightarrow> (address \<times> uint256 \<times> string) list \<Rightarrow> error + registry" where
  "complete_all s tid [] = Inr s"
| "complete_all s tid (c # cs) =
     bind_err (completeTask s (fst c) (fst (snd c)) tid (snd (snd c)))
       (\<lambda>s'. complete_all s' tid cs)"

text \<open>
  A second deployment: the same accounts and token, and a task (id 1) created at time 1000
  with a cap of two participants, nobody having completed it yet.
\<close>

definition demo_open :: registry where
  "demo_open = registry_run (registry_constructor 1 2 3)
     [(1, 999, AddSupportedToken 9),
      (1, 1000, CreateTask ''bridge'' ''bridge once'' BRIDGE 100 9 2 500 ''{}'' False 50)]"

text \<open>The same deployment after the oracle (account 2) has delivered a passing verdict.\<close>

definition demo_verified :: registry where
  "demo_verified = registry_run demo_registry [(2, 1002, VerifyTaskCompletion 1 7 True 80)]"

text \<open>
  The cap of every task is respected: the invariant of the data model that the statements
  about full tasks rest on.
\<close>

definition participants_within_cap :: "registry \<Rightarrow> bool" where
  "participants_within_cap s =
     (\<forall>tid. currentParticipants (tasks s tid) \<le> maxParticipants (tasks s tid))"

section \<open>VerifierGateway\<close>

datatype VerificationType =
  ONCHAIN_TRANSACTION | OFFCHAIN_SOCIAL | OFFCHAIN_GITHUB | OFFCHAIN_DISCORD | CUSTOM_ORACLE

record VerificationResult =
  res_verified :: bool
  res_sybilScore :: uint256
  proofHash :: string
  timestamp :: uint256
  verifier :: address

record VerificationRequest =
  req_taskId :: uint256
  req_user :: address
  verificationType :: VerificationType
  req_proofData :: string
  processed :: bool
  result :: VerificationResult

definition zero_VerificationResult :: VerificationResult where
  "zero_VerificationResult =
     \<lparr> res_verified = False, res_sybilScore = 0, proofHash = [], timestamp = 0, verifier = 0 \<rparr>"

definition zero_VerificationRequest :: VerificationRequest where
  "zero_VerificationRequest =
     \<lparr> req_taskId = 0, req_user = 0, verificationType = ONCHAIN_TRANSACTION,
       req_proofData = [], processed = False, result = zero_VerificationResult \<rparr>"

record gateway =
  gw_owner :: address
  verificationRequests :: "uint256 \<Rightarrow> VerificationRequest"
  authorizedOracles :: "address \<Rightarrow> bool"
  oracleAddresses :: "VerificationType \<Rightarrow> address"
  oracleNonces :: "address \<Rightarrow> uint256"
  nextRequestId :: uint256
  taskRegistry :: address

definition gateway_constructor :: "address \<Rightarrow> address \<Rightarrow> gateway" where
  "gateway_constructor sender registry_addr =
     \<lparr> gw_owner = sender, verificationRequests = (\<lambda>_. zero_VerificationRequest),
       authorizedOracles = (\<lambda>_. False), oracleAddresses = (\<lambda>_. 0),
       oracleNonces = (\<lambda>_. 0), nextRequestId = 1, taskRegistry = registry_addr \<rparr>"

text \<open>
  \<open>requestVerification\<close>; \<open>_triggerOGComputeVerification\<close> has an empty body, so the call
  only allocates and stores the request.
\<close>

definition requestVerification ::
  "gateway \<Rightarrow> address \<Rightarrow> uint256 \<Rightarrow> address \<Rightarrow> VerificationType \<Rightarrow> string
     \<Rightarrow> error + (gateway \<times> uint256)" where
  "requestVerification s sender tid u vtype pdata =
     (if \<not> sender = taskRegistry s then Inl OnlyTaskRegistryRequest
      else if \<not> oracleAddresses s vtype \<noteq> 0 then Inl NoOracleForType
      else bind_err (checked_add (nextRequestId s) 1) (\<lambda>next'.
             let rid = nextRequestId s in
             Inr (s\<lparr> nextRequestId := next',
                     verificationRequests := (verificationRequests s)(rid :=
                       \<lparr> req_taskId = tid, req_user = u, verificationType = vtype,
                         req_proofData = pdata, processed = False,
                         result = zero_VerificationResult \<rparr>) \<rparr>, rid)))"

text \<open>
  \<open>completeVerification\<close>. The four \<open>require\<close>s in the order of the source;
  \<open>_notifyTaskRegistry\<close> has an empty body, so nothing is forwarded to the registry.
\<close>

definition completeVerification ::
  "gateway \<Rightarrow> address \<Rightarrow> uint256 \<Rightarrow> uint256 \<Rightarrow> bool \<Rightarrow> uint256 \<Rightarrow> string \<Rightarrow> error + gateway" where
  "completeVerification s sender now rid vfd score hash =
     (if \<not> authorizedOracles s sender then Inl OnlyAuthorizedOracles
      else if \<not> rid < nextRequestId s then Inl InvalidRequestId
      else if \<not> \<not> processed (verificationRequests s rid) then Inl RequestAlreadyProcessed
      else if \<not> (score \<ge> 0 \<and> score \<le> 100) then Inl InvalidSybilScore
      else bind_err (checked_add (oracleNonces s sender) 1) (\<lambda>nonce'.
             Inr (s\<lparr> verificationRequests := (verificationRequests s)(rid :=
                       (verificationRequests s rid)\<lparr> processed := True,
                          result := \<lparr> res_verified = vfd, res_sybilScore = score,
                                      proofHash = hash, timestamp = now,
                                      verifier = sender \<rparr> \<rparr>),
                     oracleNonces := (oracleNonces s)(sender := nonce') \<rparr>)))"

definition registerOracle ::
  "gateway \<Rightarrow> address \<Rightarrow> address \<Rightarrow> VerificationType \<Rightarrow> error + gateway" where
  "registerOracle s sender oracle vtype =
     (if sender \<noteq> gw_owner s then Inl OwnableUnauthorizedAccount
      else if \<not> oracle \<noteq> 0 then Inl InvalidOracleAddress
      else Inr (s\<lparr> authorizedOracles := (authorizedOracles s)(oracle := True),
                   oracleAddresses := (oracleAddresses s)(vtype := oracle) \<rparr>))"

text \<open>The loop of \<open>removeOracle\<close> over the five verification types, in their order.\<close>

fun clear_oracle ::
  "address \<Rightarrow> VerificationType list \<Rightarrow> (VerificationType \<Rightarrow> address) \<Rightarrow> (VerificationType \<Rightarrow> address)" where
  "clear_oracle oracle [] m = m"
| "clear_oracle oracle (t # ts) m =
     clear_oracle oracle ts (if m t = oracle then m(t := 0) else m)"

definition removeOracle :: "gateway \<Rightarrow> address \<Rightarrow> address \<Rightarrow> error + gateway" where
  "removeOracle s sender oracle =
     (if sender \<noteq> gw_owner s then Inl OwnableUnauthorizedAccount
      else if \<not> authorizedOracles s oracle then Inl OracleNotRegistered
      else Inr (s\<lparr> authorizedOracles := (authorizedOracles s)(oracle := False),
                   oracleAddresses := clear_oracle oracle
                     [ONCHAIN_TRANSACTION, OFFCHAIN_SOCIAL, OFFCHAIN_GITHUB, OFFCHAIN_DISCORD,
                      CUSTOM_ORACLE] (oracleAddresses s) \<rparr>))"

definition setTaskRegistry :: "gateway \<Rightarrow> address \<Rightarrow> address \<Rightarrow> error + gateway" where
  "setTaskRegistry s sender registry_addr =
     (if sender \<noteq> gw_owner s then Inl OwnableUnauthorizedAccount
      else if \<not> registry_addr \<noteq> 0 then Inl InvalidRegistryAddress
      else Inr (s\<lparr> taskRegistry := registry_addr \<rparr>))"

subsection \<open>Transactions against the gateway\<close>

datatype gateway_call =
    RequestVerification uint256 address VerificationType string
  | CompleteVerification uint256 bool uint256 string
  | RegisterOracle address VerificationType
  | RemoveOracle address
  | SetTaskRegistry address

fun gateway_step :: "gateway \<Rightarrow> address \<Rightarrow> uint256 \<Rightarrow> gateway_call \<Rightarrow> error + gateway" where
  "gateway_step s sender now (RequestVerification tid u vtype pdata) =
     bind_err (requestVerification s sender tid u vtype pdata) (\<lambda>r. Inr (fst r))"
| "gateway_step s sender now (CompleteVerification rid vfd score hash) =
     completeVerification s sender now rid vfd score hash"
| "gateway_step s sender now (RegisterOracle oracle vtype) = registerOracle s sender oracle vtype"
| "gateway_step s sender now (RemoveOracle oracle) = removeOracle s sender oracle"
| "gateway_step s sender now (SetTaskRegistry a) = setTaskRegistry s sender a"

definition gateway_tx :: "gateway \<Rightarrow> address \<times> uint256 \<times> gateway_call \<Rightarrow> gateway" where
  "gateway_tx s t =
     (case gateway_step s (fst t) (fst (snd t)) (snd (snd t)) of
        Inl e \<Rightarrow> s
      | Inr s' \<Rightarrow> s')"

fun gateway_run :: "gateway \<Rightarrow> (address \<times> uint256 \<times> gateway_call) list \<Rightarrow> gateway" where
  "gateway_run s [] = s"
| "gateway_run s (t # ts) = gateway_run (gateway_tx s t) ts"

text \<open>
  A gateway for the concrete runs: account 1 deploys it for the registry at address 5,
  registers oracle 11 for on-chain transactions and oracle 12 for social proofs; the
  registry then files request 1, an on-chain proof of user 7 for task 1.
\<close>

definition demo_gateway :: gateway where
  "demo_gateway = gateway_run (gateway_constructor 1 5)
     [(1, 900, RegisterOracle 11 ONCHAIN_TRANSACTION),
      (1, 901, RegisterOracle 12 OFFCHAIN_SOCIAL),
      (5, 1001, RequestVerification 1 7 ONCHAIN_TRANSACTION ''0xabc'')]"

text \<open>The same gateway after oracle 11 has answered request 1.\<close>

definition demo_gateway_answered :: gateway where
  "demo_gateway_answered =
     gateway_run demo_gateway [(11, 1002, CompleteVerification 1 True 80 ''0xd1'')]"

text \<open>Requests are processed only below the next request id.\<close>

definition processed_below_next :: "gateway \<Rightarrow> bool" where
  "processed_below_next s =
     (\<forall>rid. processed (verificationRequests s rid) \<longrightarrow> rid < nextRequestId s)"

section \<open>PayoutSplitter\<close>

record ReferralData =
  directReferrer :: address
  indirectReferrers :: "address list"
  isActive :: bool
  totalEarnings :: uint256
  directEarnings :: uint256
  indirectEarnings :: uint256

record PayoutDistribution =
  taskCompleterReward :: uint256
  directReferrerReward :: uint256
  indirectReferrerReward :: uint256
  platformFee :: uint256

definition zero_ReferralData :: ReferralData where
  "zero_ReferralData = \<lparr> directReferrer = 0, indirectReferrers = [], isActive = False,
     totalEarnings = 0, directEarnings = 0, indirectEarnings = 0 \<rparr>"

record splitter =
  ps_owner :: address
  referrals :: "address \<Rightarrow> ReferralData"
  registeredUsers :: "address \<Rightarrow> bool"
  ps_taskRegistry :: address
  platformWallet :: address
  ps_supportedTokens :: "address \<Rightarrow> bool"

definition splitter_constructor :: "address \<Rightarrow> address \<Rightarrow> address \<Rightarrow> splitter" where
  "splitter_constructor sender registry_addr wallet =
     \<lparr> ps_owner = sender, referrals = (\<lambda>_. zero_ReferralData),
       registeredUsers = (\<lambda>_. False), ps_taskRegistry = registry_addr,
       platformWallet = wallet, ps_supportedTokens = (\<lambda>_. False) \<rparr>"

text \<open>The constants of the contract, in basis points.\<close>

definition TASK_COMPLETER_PERCENT :: uint256 where "TASK_COMPLETER_PERCENT = 6000"
definition DIRECT_REFERRER_PERCENT :: uint256 where "DIRECT_REFERRER_PERCENT = 2500"
definition INDIRECT_REFERRER_PERCENT :: uint256 where "INDIRECT_REFERRER_PERCENT = 1500"
definition PLATFORM_FEE_PERCENT :: uint256 where "PLATFORM_FEE_PERCENT = 1000"
definition MAX_REFERRAL_LEVELS :: uint256 where "MAX_REFERRAL_LEVELS = 3"

text \<open>
  \<open>_calculateDistribution\<close>: each share is \<open>(_totalReward * PERCENT) / 10000\<close>, the
  product checked, the division rounding down.
\<close>

definition calculateDistribution :: "uint256 \<Rightarrow> error + PayoutDistribution" where
  "calculateDistribution totalReward =
     bind_err (checked_mul totalReward TASK_COMPLETER_PERCENT) (\<lambda>c.
     bind_err (checked_mul totalReward DIRECT_REFERRER_PERCENT) (\<lambda>d.
     bind_err (checked_mul totalReward INDIRECT_REFERRER_PERCENT) (\<lambda>i.
     bind_err (checked_mul totalReward PLATFORM_FEE_PERCENT) (\<lambda>p.
       Inr \<lparr> taskCompleterReward = c div 10000, directReferrerReward = d div 10000,
             indirectReferrerReward = i div 10000, platformFee = p div 10000 \<rparr>))))"

subsection \<open>The reward token\<close>

text \<open>
  The reward token is an ERC20 contract outside the repository, reached through
  OpenZeppelin's \<open>IERC20\<close> and \<open>SafeERC20\<close>. It is taken as a ledger of balances together
  with the list of the transfers made (the \<open>Transfer\<close> events of the standard: sender,
  recipient, amount). \<open>safeTransfer\<close> from an account aborts when the amount exceeds the
  balance of the account, and moves the amount otherwise (the balance of the recipient
  cannot overflow in a token whose total supply fits in 256 bits).
\<close>

record erc20 =
  balanceOf :: "address \<Rightarrow> uint256"
  transfers :: "(address \<times> address \<times> uint256) list"

definition safeTransfer :: "erc20 \<Rightarrow> address \<Rightarrow> address \<Rightarrow> uint256 \<Rightarrow> error + erc20" where
  "safeTransfer tok from to amount =
     (if balanceOf tok from < amount then Inl ERC20InsufficientBalance
      else
        let b1 = (balanceOf tok)(from := balanceOf tok from - amount);
            b2 = b1(to := b1 to + amount)
        in Inr (tok\<lparr> balanceOf := b2, transfers := transfers tok @ [(from, to, amount)] \<rparr>))"

subsection \<open>distributePayout\<close>

text \<open>The three storage updates \<open>referrals[a].field += amount\<close>, each checked.\<close>

definition add_totalEarnings :: "splitter \<Rightarrow> address \<Rightarrow> uint256 \<Rightarrow> error + splitter" where
  "add_totalEarnings s a amount =
     bind_err (checked_add (totalEarnings (referrals s a)) amount) (\<lambda>v.
       Inr (s\<lparr> referrals := (referrals s)(a := (referrals s a)\<lparr> totalEarnings := v \<rparr>) \<rparr>))"

definition add_directEarnings :: "splitter \<Rightarrow> address \<Rightarrow> uint256 \<Rightarrow> error + splitter" where
  "add_directEarnings s a amount =
     bind_err (checked_add (directEarnings (referrals s a)) amount) (\<lambda>v.
       Inr (s\<lparr> referrals := (referrals s)(a := (referrals s a)\<lparr> directEarnings := v \<rparr>) \<rparr>))"

definition add_indirectEarnings :: "splitter \<Rightarrow> address \<Rightarrow> uint256 \<Rightarrow> error + splitter" where
  "add_indirectEarnings s a amount =
     bind_err (checked_add (indirectEarnings (referrals s a)) amount) (\<lambda>v.
       Inr (s\<lparr> referrals := (referrals s)(a := (referrals s a)\<lparr> indirectEarnings := v \<rparr>) \<rparr>))"

text \<open>
  The loop over \<open>referrerData.indirectReferrers\<close>: every entry that is not \<open>address(0)\<close>
  is sent \<open>indirectRewardPerLevel\<close> and has it added to its earnings. The body writes
  earnings only, so the array it walks is the one read at the start. \<open>this\<close> is the
  address of the splitter, the account the token debits.
\<close>

fun pay_indirect ::
  "address list \<Rightarrow> uint256 \<Rightarrow> address \<Rightarrow> splitter \<Rightarrow> erc20 \<Rightarrow> error + (splitter \<times> erc20)" where
  "pay_indirect [] perLevel this s tok = Inr (s, tok)"
| "pay_indirect (r # rs) perLevel this s tok =
     (if r \<noteq> 0 then
        bind_err (safeTransfer tok this r perLevel) (\<lambda>tok1.
        bind_err (add_totalEarnings s r perLevel) (\<lambda>s1.
        bind_err (add_indirectEarnings s1 r perLevel) (\<lambda>s2.
          pay_indirect rs perLevel this s2 tok1)))
      else pay_indirect rs perLevel this s tok)"

text \<open>
  \<open>distributePayout\<close>, step by step as in the source. \<open>referrerData\<close> is a storage
  reference to \<open>referrals[_taskCompleter]\<close>, so each read of it is a read of the current
  storage. The \<open>nonReentrant\<close> guard and the two events are left out: the ledger above
  never calls back, and the sum of the direct and the indirect share that the first event
  reports is at most four tenths of the reward, so its checked addition cannot abort.
\<close>

definition pay_completer ::
  "PayoutDistribution \<Rightarrow> address \<Rightarrow> address \<Rightarrow> splitter \<Rightarrow> erc20 \<Rightarrow> error + (splitter \<times> erc20)" where
  "pay_completer dist this completer s tok =
     (if taskCompleterReward dist > 0 then
        bind_err (safeTransfer tok this completer (taskCompleterReward dist)) (\<lambda>tok1.
        bind_err (add_totalEarnings s completer (taskCompleterReward dist)) (\<lambda>s1.
          Inr (s1, tok1)))
      else Inr (s, tok))"

definition pay_direct ::
  "PayoutDistribution \<Rightarrow> address \<Rightarrow> address \<Rightarrow> splitter \<Rightarrow> erc20 \<Rightarrow> error + (splitter \<times> erc20)" where
  "pay_direct dist this completer s tok =
     (let dr = directReferrer (referrals s completer) in
      if dr \<noteq> 0 \<and> directReferrerReward dist > 0 then
        bind_err (safeTransfer tok this dr (directReferrerReward dist)) (\<lambda>tok1.
        bind_err (add_totalEarnings s dr (directReferrerReward dist)) (\<lambda>s1.
        bind_err (add_directEarnings s1 dr (directReferrerReward dist)) (\<lambda>s2.
          Inr (s2, tok1))))
      else Inr (s, tok))"

definition pay_indirect_levels ::
  "PayoutDistribution \<Rightarrow> address \<Rightarrow> address \<Rightarrow> splitter \<Rightarrow> erc20 \<Rightarrow> error + (splitter \<times> erc20)" where
  "pay_indirect_levels dist this completer s tok =
     (if indirectReferrerReward dist > 0 then
        pay_indirect (indirectReferrers (referrals s completer))
          (indirectReferrerReward dist div MAX_REFERRAL_LEVELS) this s tok
      else Inr (s, tok))"

definition pay_platform ::
  "PayoutDistribution \<Rightarrow> address \<Rightarrow> splitter \<Rightarrow> erc20 \<Rightarrow> error + (splitter \<times> erc20)" where
  "pay_platform dist this s tok =
     (if platformFee dist > 0 then
        bind_err (safeTransfer tok this (platformWallet s) (platformFee dist)) (\<lambda>tok1.
          Inr (s, tok1))
      else Inr (s, tok))"

definition distributePayout ::
  "splitter \<Rightarrow> erc20 \<Rightarrow> address \<Rightarrow> address \<Rightarrow> address \<Rightarrow> uint256 \<Rightarrow> uint256 \<Rightarrow> address
     \<Rightarrow> error + (splitter \<times> erc20)" where
  "distributePayout s tok this sender completer tid totalReward tokenAddress =
     (if \<not> sender = ps_taskRegistry s then Inl OnlyTaskRegistryPayout
      else if \<not> ps_supportedTokens s tokenAddress then Inl TokenNotSupported
      else if \<not> totalReward > 0 then Inl InvalidRewardAmount
      else if \<not> balanceOf tok this \<ge> totalReward then Inl InsufficientContractBalance
      else
        bind_err (calculateDistribution totalReward) (\<lambda>dist.
        bind_err (pay_completer dist this completer s tok) (\<lambda>r1.
        bind_err (pay_direct dist this completer (fst r1) (snd r1)) (\<lambda>r2.
        bind_err (pay_indirect_levels dist this completer (fst r2) (snd r2)) (\<lambda>r3.
          pay_platform dist this (fst r3) (snd r3))))))"

text \<open>\<open>addSupportedToken\<close> of the splitter (the registry has a function of the same name).\<close>

definition splitter_addSupportedToken :: "splitter \<Rightarrow> address \<Rightarrow> address \<Rightarrow> error + splitter" where
  "splitter_addSupportedToken s sender token =
     (if sender \<noteq> ps_owner s then Inl OwnableUnauthorizedAccount
      else Inr (s\<lparr> ps_supportedTokens := (ps_supportedTokens s)(token := True) \<rparr>))"

text \<open>The amount sent out by a list of transfers.\<close>

fun disbursed :: "(address \<times> address \<times> uint256) list \<Rightarrow> nat" where
  "disbursed [] = 0"
| "disbursed (t # ts) = unat (snd (snd t)) + disbursed ts"

text \<open>
  A splitter for the concrete runs, at address 4: deployed by account 1 for the registry at
  address 5 with platform wallet 6, token 9 added as supported, no referral data (as in
  the deployed contract, where \<open>registerWithReferral\<close> resolves every code to
  \<open>address(0)\<close> and aborts). The token holds 20000 units for the splitter.
\<close>

definition demo_splitter :: splitter where
  "demo_splitter = (splitter_constructor 1 5 6)\<lparr> ps_supportedTokens := (\<lambda>_. False)(9 := True) \<rparr>"

definition demo_token :: erc20 where
  "demo_token = \<lparr> balanceOf = (\<lambda>_. 0)(4 := 20000), transfers = [] \<rparr>"

text \<open>
  The same splitter with referral data for the participant 7: direct referrer 21, one
  upstream referrer 22, the other two tiers unset.
\<close>

definition demo_splitter_referred :: splitter where
  "demo_splitter_referred = demo_splitter\<lparr> referrals := (referrals demo_splitter)(7 :=
     \<lparr> directReferrer = 21, indirectReferrers = [22, 0, 0], isActive = True,
       totalEarnings = 0, directEarnings = 0, indirectEarnings = 0 \<rparr>) \<rparr>"

text \<open>What a step of the payout leaves alone: the platform wallet and the referral chains.\<close>

definition same_chains :: "splitter \<Rightarrow> splitter \<Rightarrow> bool" where
  "same_chains s s' =
     (platformWallet s' = platformWallet s
      \<and> (\<forall>a. directReferrer (referrals s' a) = directReferrer (referrals s a)
             \<and> indirectReferrers (referrals s' a) = indirectReferrers (referrals s a)))"

section \<open>Evaluation of the concrete runs\<close>

lemmas registry_eval =
  registry_constructor_def demo_setup_def demo_registry_def demo_verified_def demo_open_def
  registry_tx_def
  createTask_def completeTask_def verifyTaskCompletion_def triggerPayout_def
  addSupportedToken_def updateTaskStatus_def checked_add_def bind_err_def
  zero_Task_def zero_TaskCompletion_def

lemmas gateway_eval =
  gateway_constructor_def demo_gateway_def demo_gateway_answered_def gateway_tx_def
  requestVerification_def completeVerification_def registerOracle_def removeOracle_def
  setTaskRegistry_def checked_add_def bind_err_def zero_VerificationRequest_def
  zero_VerificationResult_def

lemmas splitter_eval =
  splitter_constructor_def demo_splitter_def demo_token_def demo_splitter_referred_def
  distributePayout_def calculateDistribution_def pay_completer_def pay_direct_def
  pay_indirect_levels_def pay_platform_def safeTransfer_def add_totalEarnings_def
  add_directEarnings_def add_indirectEarnings_def checked_add_def checked_mul_def bind_err_def
  zero_ReferralData_def TASK_COMPLETER_PERCENT_def DIRECT_REFERRER_PERCENT_def
  INDIRECT_REFERRER_PERCENT_def PLATFORM_FEE_PERCENT_def MAX_REFERRAL_LEVELS_def

lemmas step_defs = createTask_def completeTask_def verifyTaskCompletion_def triggerPayout_def
  updateTaskStatus_def setVerificationOracle_def setPayoutSplitter_def addSupportedToken_def
  transferOwnership_def renounceOwnership_def

lemmas gateway_defs = requestVerification_def completeVerification_def registerOracle_def
  removeOracle_def setTaskRegistry_def

lemma demo_registry_facts:
  "verificationOracle demo_registry = 2 \<and> owner demo_registry = 1
   \<and> nextTaskId demo_registry = 2
   \<and> completed (taskCompletions demo_registry 1 7)
   \<and> \<not> verified (taskCompletions demo_registry 1 7)
   \<and> status (tasks demo_registry 1) = ACTIVE
   \<and> rewardAmount (tasks demo_registry 1) = 100
   \<and> sybilThreshold (tasks demo_registry 1) = 50
   \<and> maxParticipants (tasks demo_registry 1) = 1
   \<and> currentParticipants (tasks demo_registry 1) = 1
   \<and> startTime (tasks demo_registry 1) = 1000
   \<and> endTime (tasks demo_registry 1) = 1500
   \<and> userTotalEarnings demo_registry 7 = 0"
  by (simp add: registry_eval)

lemma demo_gateway_facts:
  "nextRequestId demo_gateway = 2
   \<and> verificationType (verificationRequests demo_gateway 1) = ONCHAIN_TRANSACTION
   \<and> \<not> processed (verificationRequests demo_gateway 1)
   \<and> oracleAddresses demo_gateway ONCHAIN_TRANSACTION = 11
   \<and> oracleAddresses demo_gateway OFFCHAIN_SOCIAL = 12
   \<and> authorizedOracles demo_gateway 11 \<and> authorizedOracles demo_gateway 12
   \<and> \<not> authorizedOracles demo_gateway 99
   \<and> oracleNonces demo_gateway 12 = 0"
  by (simp add: gateway_eval)

lemma demo_splitter_deployed:
  "splitter_addSupportedToken (splitter_constructor 1 5 6) 1 9 = Inr demo_splitter"
  by (simp add: splitter_addSupportedToken_def splitter_constructor_def demo_splitter_def)

section \<open>Words and failures\<close>

lemma bind_err_Inr: "bind_err m f = Inr y \<Longrightarrow> \<exists>x. m = Inr x \<and> f x = Inr y"
  by (cases m) (simp_all add: bind_err_def)

lemma lt_no_overflow: "(a::uint256) < b \<Longrightarrow> unat a + unat (1::uint256) < 2 ^ 256"
proof -
  assume "a < b"
  then have "unat a < unat b" by (simp add: word_less_nat_alt)
  moreover have "unat b < 2 ^ 256" using unsigned_less [of b, where ?'a = nat] by simp
  ultimately show ?thesis by simp
qed

lemma unat_succ: "(a::uint256) < b \<Longrightarrow> unat (a + 1) = unat a + 1"
  using lt_no_overflow [of a b] unat_add_lem [of a 1] by simp

lemma word_succ_le: "(a::uint256) < b \<Longrightarrow> a + 1 \<le> b"
  by (rule inc_le)

lemma word_less_succ:
  assumes "(a::uint256) < b" and "unat b + unat (1::uint256) < 2 ^ 256"
  shows "a < b + 1"
proof -
  have "unat (b + 1) = unat b + 1" using assms(2) unat_add_lem [of b 1] by simp
  then show ?thesis using assms(1) by (simp add: word_less_nat_alt)
qed

lemma unat_share:
  assumes "unat (g::uint256) * unat (w::uint256) < 2 ^ 256"
  shows "unat (g * w div 10000) = unat g * unat w div 10000"
proof -
  have "unat (g * w) = unat g * unat w"
    using assms unat_mult_lem [of g w] by simp
  then show ?thesis by (simp add: unat_div)
qed

lemma floor_bounds: "10000 * (a div 10000) \<le> (a::nat) \<and> a < 10000 * (a div 10000) + 10000"
proof -
  have "10000 * (a div 10000) + a mod 10000 = a" by simp
  moreover have "a mod 10000 < 10000" by simp
  ultimately show ?thesis by linarith
qed

section \<open>TaskRegistry: the cap of a task\<close>

lemma constructor_within_cap: "participants_within_cap (registry_constructor a b c)"
  by (simp add: participants_within_cap_def registry_constructor_def zero_Task_def)

lemma registry_step_within_cap:
  assumes "registry_step s sender now c = Inr s'" and "participants_within_cap s"
  shows "participants_within_cap s'"
  using assms
  by (cases c)
     (auto simp: step_defs participants_within_cap_def bind_err_def checked_add_def Let_def
        word_succ_le split: if_splits sum.splits)

lemma registry_tx_within_cap:
  "participants_within_cap s \<Longrightarrow> participants_within_cap (registry_tx s t)"
  by (auto simp: registry_tx_def split: sum.splits dest: registry_step_within_cap)

text \<open>
  Every storage reached from the constructor by transactions keeps
  \<open>currentParticipants \<le> maxParticipants\<close> for every task.
\<close>

lemma registry_run_within_cap:
  "participants_within_cap s \<Longrightarrow> participants_within_cap (registry_run s ts)"
  by (induction ts arbitrary: s) (simp_all add: registry_tx_within_cap)

lemma reachable_within_cap: "participants_within_cap (registry_run (registry_constructor a b c) ts)"
  by (rule registry_run_within_cap [OF constructor_within_cap])

section \<open>TaskRegistry: verdict intake and settlement\<close>

text \<open>
  Two passing verdicts for the same task and participant: the registry keeps no record of
  a settlement already made, so the second call adds the reward of 100 a second time.
\<close>

theorem verifyTaskCompletion_second_call_pays_again:
  "completed (taskCompletions demo_registry 1 7)
   \<and> userTotalEarnings demo_registry 7 = 0
   \<and> userTotalEarnings demo_verified 7 = 100
   \<and> \<not> isl (verifyTaskCompletion demo_verified 2 1 7 True 80)
   \<and> userTotalEarnings (projr (verifyTaskCompletion demo_verified 2 1 7 True 80)) 7 = 200"
  by (simp add: registry_eval)

text \<open>
  Claim C1, as the code has it. For a task and a participant with a completion record, a
  call of \<open>verifyTaskCompletion\<close> by the verification oracle succeeds (unless the credited
  total would overflow), stores the verdict and the score, and credits the reward of the
  task to the participant once in that call if and only if the verdict is positive and the
  score is at least the threshold of the task; otherwise it credits nothing. The earnings
  of every other account stay as they were. The rule holds for each call on its own:
  nothing remembers an earlier settlement.
\<close>

theorem verifyTaskCompletion_credits_per_call:
  assumes "sender = verificationOracle s"
      and "completed (taskCompletions s tid u)"
      and "vfd \<and> sybilThreshold (tasks s tid) \<le> score \<Longrightarrow>
             unat (userTotalEarnings s u) + unat (rewardAmount (tasks s tid)) < 2 ^ 256"
  shows "\<exists>s'. verifyTaskCompletion s sender tid u vfd score = Inr s'
           \<and> unat (userTotalEarnings s' u) = unat (userTotalEarnings s u)
               + (if vfd \<and> sybilThreshold (tasks s tid) \<le> score
                  then unat (rewardAmount (tasks s tid)) else 0)
           \<and> userTotalEarnings s' = (userTotalEarnings s)(u := userTotalEarnings s' u)
           \<and> verified (taskCompletions s' tid u) = vfd
           \<and> sybilScore (taskCompletions s' tid u) = score"
  using assms
  by (auto simp: verifyTaskCompletion_def triggerPayout_def checked_add_def bind_err_def
        Let_def unat_add_lem [THEN iffD1])

theorem verifyTaskCompletion_credits_per_call_witness:
  "\<exists>s'. verifyTaskCompletion demo_verified 2 1 7 True 80 = Inr s'
        \<and> unat (userTotalEarnings s' 7) = 200
        \<and> verified (taskCompletions s' 1 7)
        \<and> sybilScore (taskCompletions s' 1 7) = 80"
  using verifyTaskCompletion_credits_per_call [of 2 demo_verified 1 7 True 80]
  by (simp add: registry_eval)

section \<open>TaskRegistry: submitting a completion\<close>

lemma completeTask_success:
  assumes "status (tasks s tid) = ACTIVE"
      and "startTime (tasks s tid) \<le> now" and "now \<le> endTime (tasks s tid)"
      and "currentParticipants (tasks s tid) < maxParticipants (tasks s tid)"
      and "\<not> completed (taskCompletions s tid sender)"
  shows "completeTask s sender now tid pdata =
     Inr (s\<lparr> taskCompletions := (taskCompletions s)(tid := (taskCompletions s tid)(sender :=
                      \<lparr> user = sender, taskId = tid, completed = True, verified = False,
                        completionTime = now, proofData = pdata, sybilScore = 0 \<rparr>)),
             tasks := (tasks s)(tid := (tasks s tid)\<lparr> currentParticipants := currentParticipants (tasks s tid) + 1 \<rparr>),
             userCompletedTasks := (userCompletedTasks s)(sender :=
                      userCompletedTasks s sender @ [tid]) \<rparr>)"
  using assms lt_no_overflow [of "currentParticipants (tasks s tid)" "maxParticipants (tasks s tid)"]
  by (simp add: completeTask_def Let_def bind_err_def checked_add_def)

lemma completeTask_single:
  assumes "status (tasks s tid) = ACTIVE"
      and "startTime (tasks s tid) \<le> now" and "now \<le> endTime (tasks s tid)"
      and "currentParticipants (tasks s tid) \<le> maxParticipants (tasks s tid)"
  shows "(if currentParticipants (tasks s tid) = maxParticipants (tasks s tid)
          then completeTask s sender now tid pdata = Inl TaskFull
          else if completed (taskCompletions s tid sender)
          then completeTask s sender now tid pdata = Inl TaskAlreadyCompleted
          else \<exists>s'. completeTask s sender now tid pdata = Inr s'
                 \<and> completed (taskCompletions s' tid sender)
                 \<and> \<not> verified (taskCompletions s' tid sender)
                 \<and> unat (currentParticipants (tasks s' tid))
                     = unat (currentParticipants (tasks s tid)) + 1)"
proof (cases "currentParticipants (tasks s tid) = maxParticipants (tasks s tid)")
  case True
  then show ?thesis using assms by (simp add: completeTask_def Let_def)
next
  case False
  then have lt: "currentParticipants (tasks s tid) < maxParticipants (tasks s tid)"
    using assms(4) by simp
  show ?thesis
  proof (cases "completed (taskCompletions s tid sender)")
    case True
    then show ?thesis using assms lt False by (simp add: completeTask_def Let_def)
  next
    case nc: False
    show ?thesis
      using False nc completeTask_success [OF assms(1-3) lt nc, of pdata] unat_succ [OF lt]
      by simp
  qed
qed

text \<open>
  As many distinct participants as there are free places, none with a completion yet and
  each inside the time window, all get in; the count moves up by their number.
\<close>

lemma complete_all_fills:
  assumes "status (tasks s tid) = ACTIVE"
      and "distinct (map fst cs)"
      and "\<forall>c\<in>set cs. \<not> completed (taskCompletions s tid (fst c))
             \<and> startTime (tasks s tid) \<le> fst (snd c) \<and> fst (snd c) \<le> endTime (tasks s tid)"
      and "unat (currentParticipants (tasks s tid)) + length cs \<le> unat (maxParticipants (tasks s tid))"
  shows "\<exists>s'. complete_all s tid cs = Inr s'
           \<and> unat (currentParticipants (tasks s' tid))
               = unat (currentParticipants (tasks s tid)) + length cs
           \<and> status (tasks s' tid) = ACTIVE
           \<and> maxParticipants (tasks s' tid) = maxParticipants (tasks s tid)
           \<and> startTime (tasks s' tid) = startTime (tasks s tid)
           \<and> endTime (tasks s' tid) = endTime (tasks s tid)
           \<and> (\<forall>c\<in>set cs. completed (taskCompletions s' tid (fst c))
                 \<and> \<not> verified (taskCompletions s' tid (fst c)))
           \<and> (\<forall>u. u \<notin> fst ` set cs \<longrightarrow> taskCompletions s' tid u = taskCompletions s tid u)"
  using assms
proof (induction cs arbitrary: s)
  case Nil
  then show ?case by simp
next
  case (Cons c cs)
  let ?t = "tasks s tid"
  have lt: "currentParticipants ?t < maxParticipants ?t"
    using Cons.prems(4) by (simp add: word_less_nat_alt)
  have nc: "\<not> completed (taskCompletions s tid (fst c))"
    and w1: "startTime ?t \<le> fst (snd c)" and w2: "fst (snd c) \<le> endTime ?t"
    using Cons.prems(3) by simp_all
  define s1 where "s1 = s\<lparr> taskCompletions := (taskCompletions s)(tid := (taskCompletions s tid)(fst c :=
                      \<lparr> user = fst c, taskId = tid, completed = True, verified = False,
                        completionTime = fst (snd c), proofData = snd (snd c), sybilScore = 0 \<rparr>)),
             tasks := (tasks s)(tid := ?t\<lparr> currentParticipants := currentParticipants ?t + 1 \<rparr>),
             userCompletedTasks := (userCompletedTasks s)(fst c :=
                      userCompletedTasks s (fst c) @ [tid]) \<rparr>"
  have step: "completeTask s (fst c) (fst (snd c)) tid (snd (snd c)) = Inr s1"
    unfolding s1_def by (rule completeTask_success [OF Cons.prems(1) w1 w2 lt nc])
  have cnt: "unat (currentParticipants (tasks s1 tid)) = unat (currentParticipants ?t) + 1"
    using unat_succ [OF lt] by (simp add: s1_def)
  have t1: "status (tasks s1 tid) = ACTIVE" "maxParticipants (tasks s1 tid) = maxParticipants ?t"
    "startTime (tasks s1 tid) = startTime ?t" "endTime (tasks s1 tid) = endTime ?t"
    using Cons.prems(1) by (simp_all add: s1_def)
  have c1: "\<And>u. u \<noteq> fst c \<Longrightarrow> taskCompletions s1 tid u = taskCompletions s tid u"
    by (simp add: s1_def)
  have c2: "completed (taskCompletions s1 tid (fst c)) \<and> \<not> verified (taskCompletions s1 tid (fst c))"
    by (simp add: s1_def)
  have notin: "fst c \<notin> fst ` set cs" and dist: "distinct (map fst cs)"
    using Cons.prems(2) by simp_all
  have p3: "\<forall>d\<in>set cs. \<not> completed (taskCompletions s1 tid (fst d))
             \<and> startTime (tasks s1 tid) \<le> fst (snd d) \<and> fst (snd d) \<le> endTime (tasks s1 tid)"
  proof
    fix d assume d: "d \<in> set cs"
    then have "fst d \<noteq> fst c" using notin by (metis imageI)
    then show "\<not> completed (taskCompletions s1 tid (fst d))
             \<and> startTime (tasks s1 tid) \<le> fst (snd d) \<and> fst (snd d) \<le> endTime (tasks s1 tid)"
      using Cons.prems(3) d c1 t1 by simp
  qed
  have p4: "unat (currentParticipants (tasks s1 tid)) + length cs \<le> unat (maxParticipants (tasks s1 tid))"
    using Cons.prems(4) cnt t1 by simp
  obtain s' where r: "complete_all s1 tid cs = Inr s'"
    and r1: "unat (currentParticipants (tasks s' tid)) = unat (currentParticipants (tasks s1 tid)) + length cs"
    and r2: "status (tasks s' tid) = ACTIVE" "maxParticipants (tasks s' tid) = maxParticipants (tasks s1 tid)"
       "startTime (tasks s' tid) = startTime (tasks s1 tid)" "endTime (tasks s' tid) = endTime (tasks s1 tid)"
    and r3: "\<forall>d\<in>set cs. completed (taskCompletions s' tid (fst d)) \<and> \<not> verified (taskCompletions s' tid (fst d))"
    and r4: "\<forall>u. u \<notin> fst ` set cs \<longrightarrow> taskCompletions s' tid u = taskCompletions s1 tid u"
    using Cons.IH [OF t1(1) dist p3 p4] by blast
  have "complete_all s tid (c # cs) = Inr s'"
    using step r by (simp add: bind_err_def)
  moreover have "unat (currentParticipants (tasks s' tid)) = unat (currentParticipants ?t) + length (c # cs)"
    using r1 cnt by simp
  moreover have "\<forall>d\<in>set (c # cs). completed (taskCompletions s' tid (fst d)) \<and> \<not> verified (taskCompletions s' tid (fst d))"
    using r3 r4 notin c2 by simp
  moreover have "\<forall>u. u \<notin> fst ` set (c # cs) \<longrightarrow> taskCompletions s' tid u = taskCompletions s tid u"
    using r4 c1 by simp
  ultimately show ?case using r2 t1 by simp
qed

text \<open>
  The task of the first deployment has a cap of one and participant 7 has completed it.
  A second submission by 7 meets the cap first: it fails with "Task is full", not with
  "Task already completed by user".
\<close>

theorem completeTask_full_before_duplicate:
  "status (tasks demo_registry 1) = ACTIVE
   \<and> startTime (tasks demo_registry 1) \<le> 1002 \<and> 1002 \<le> endTime (tasks demo_registry 1)
   \<and> completed (taskCompletions demo_registry 1 7)
   \<and> completeTask demo_registry 7 1002 1 ''again'' = Inl TaskFull
   \<and> completeTask demo_registry 7 1002 1 ''again'' \<noteq> Inl TaskAlreadyCompleted"
  by (simp add: registry_eval)

text \<open>
  Claim C7, as the code has it. For a task that is active, inside its time window and
  within its cap, \<open>completeTask\<close> fails with "Task is full" exactly when
  \<open>currentParticipants\<close> equals \<open>maxParticipants\<close> (also for a sender who has a completion
  already); when the task is not full it fails with "Task already completed by user" if a
  completion exists for the sender, and otherwise creates the completion with
  \<open>verified = false\<close> and raises the count by one. So distinct participants without a
  completion, as many as there are free places, all succeed, and whoever comes next fails
  with "Task is full".
\<close>

theorem completeTask_outcomes:
  assumes "status (tasks s tid) = ACTIVE"
      and "startTime (tasks s tid) \<le> now" and "now \<le> endTime (tasks s tid)"
      and "currentParticipants (tasks s tid) \<le> maxParticipants (tasks s tid)"
  shows "((completeTask s sender now tid pdata = Inl TaskFull)
            = (currentParticipants (tasks s tid) = maxParticipants (tasks s tid)))
     \<and> (if currentParticipants (tasks s tid) = maxParticipants (tasks s tid)
          then completeTask s sender now tid pdata = Inl TaskFull
          else if completed (taskCompletions s tid sender)
          then completeTask s sender now tid pdata = Inl TaskAlreadyCompleted
          else \<exists>s'. completeTask s sender now tid pdata = Inr s'
                 \<and> completed (taskCompletions s' tid sender)
                 \<and> \<not> verified (taskCompletions s' tid sender)
                 \<and> unat (currentParticipants (tasks s' tid))
                     = unat (currentParticipants (tasks s tid)) + 1)
     \<and> (\<forall>cs. distinct (map fst cs)
            \<and> (\<forall>c\<in>set cs. \<not> completed (taskCompletions s tid (fst c))
                  \<and> startTime (tasks s tid) \<le> fst (snd c) \<and> fst (snd c) \<le> endTime (tasks s tid))
            \<and> unat (currentParticipants (tasks s tid)) + length cs
                  = unat (maxParticipants (tasks s tid))
          \<longrightarrow> (\<exists>s'. complete_all s tid cs = Inr s'
                 \<and> currentParticipants (tasks s' tid) = maxParticipants (tasks s tid)
                 \<and> (\<forall>c\<in>set cs. completed (taskCompletions s' tid (fst c))
                       \<and> \<not> verified (taskCompletions s' tid (fst c)))
                 \<and> completeTask s' sender now tid pdata = Inl TaskFull))"
proof -
  note single = completeTask_single [OF assms, of sender pdata]
  have full: "(completeTask s sender now tid pdata = Inl TaskFull)
            = (currentParticipants (tasks s tid) = maxParticipants (tasks s tid))"
    using single by (auto split: if_splits)
  have many: "\<exists>s'. complete_all s tid cs = Inr s'
                 \<and> currentParticipants (tasks s' tid) = maxParticipants (tasks s tid)
                 \<and> (\<forall>c\<in>set cs. completed (taskCompletions s' tid (fst c))
                       \<and> \<not> verified (taskCompletions s' tid (fst c)))
                 \<and> completeTask s' sender now tid pdata = Inl TaskFull"
    if d: "distinct (map fst cs)"
      and f: "\<forall>c\<in>set cs. \<not> completed (taskCompletions s tid (fst c))
                  \<and> startTime (tasks s tid) \<le> fst (snd c) \<and> fst (snd c) \<le> endTime (tasks s tid)"
      and n: "unat (currentParticipants (tasks s tid)) + length cs
                  = unat (maxParticipants (tasks s tid))"
    for cs
  proof -
    have le: "unat (currentParticipants (tasks s tid)) + length cs
                  \<le> unat (maxParticipants (tasks s tid))"
      using n by simp
    obtain s' where r: "complete_all s tid cs = Inr s'"
      and r1: "unat (currentParticipants (tasks s' tid))
                 = unat (currentParticipants (tasks s tid)) + length cs"
      and r2: "status (tasks s' tid) = ACTIVE"
         "maxParticipants (tasks s' tid) = maxParticipants (tasks s tid)"
         "startTime (tasks s' tid) = startTime (tasks s tid)"
         "endTime (tasks s' tid) = endTime (tasks s tid)"
      and r3: "\<forall>c\<in>set cs. completed (taskCompletions s' tid (fst c))
                 \<and> \<not> verified (taskCompletions s' tid (fst c))"
      using complete_all_fills [OF assms(1) d f le] by blast
    have eq: "currentParticipants (tasks s' tid) = maxParticipants (tasks s tid)"
      using r1 n by (simp add: word_unat_eq_iff)
    have "completeTask s' sender now tid pdata = Inl TaskFull"
      using r2 eq assms(2,3) by (simp add: completeTask_def Let_def)
    then show ?thesis using r eq r3 by blast
  qed
  show ?thesis using full single many by blast
qed

theorem completeTask_outcomes_witness:
  "(completeTask demo_open 9 1003 1 ''c'' = Inl TaskFull) = False
   \<and> (\<exists>s'. completeTask demo_open 9 1003 1 ''c'' = Inr s'
          \<and> completed (taskCompletions s' 1 9) \<and> \<not> verified (taskCompletions s' 1 9)
          \<and> unat (currentParticipants (tasks s' 1)) = 1)
   \<and> (\<exists>s'. complete_all demo_open 1 [(7, 1001, ''a''), (8, 1002, ''b'')] = Inr s'
          \<and> currentParticipants (tasks s' 1) = 2
          \<and> completed (taskCompletions s' 1 7) \<and> completed (taskCompletions s' 1 8)
          \<and> completeTask s' 9 1003 1 ''c'' = Inl TaskFull)"
proof -
  have a: "status (tasks demo_open 1) = ACTIVE"
    and b: "startTime (tasks demo_open 1) \<le> 1003"
    and c: "1003 \<le> endTime (tasks demo_open 1)"
    and d: "currentParticipants (tasks demo_open 1) \<le> maxParticipants (tasks demo_open 1)"
    by (simp_all add: registry_eval)
  note t = completeTask_outcomes [OF a b c d, of 9 "''c''"]
  have v: "currentParticipants (tasks demo_open 1) = 0" "maxParticipants (tasks demo_open 1) = 2"
    "startTime (tasks demo_open 1) = 1000" "endTime (tasks demo_open 1) = 1500"
    "\<not> completed (taskCompletions demo_open 1 7)" "\<not> completed (taskCompletions demo_open 1 8)"
    "\<not> completed (taskCompletions demo_open 1 9)"
    by (simp_all add: registry_eval)
  from t have m: "distinct (map fst cs)
            \<and> (\<forall>c\<in>set cs. \<not> completed (taskCompletions demo_open 1 (fst c))
                  \<and> startTime (tasks demo_open 1) \<le> fst (snd c) \<and> fst (snd c) \<le> endTime (tasks demo_open 1))
            \<and> unat (currentParticipants (tasks demo_open 1)) + length cs
                  = unat (maxParticipants (tasks demo_open 1))
          \<longrightarrow> (\<exists>s'. complete_all demo_open 1 cs = Inr s'
                 \<and> currentParticipants (tasks s' 1) = maxParticipants (tasks demo_open 1)
                 \<and> (\<forall>c\<in>set cs. completed (taskCompletions s' 1 (fst c))
                       \<and> \<not> verified (taskCompletions s' 1 (fst c)))
                 \<and> completeTask s' 9 1003 1 ''c'' = Inl TaskFull)" for cs
    by blast
  have m2: "\<exists>s'. complete_all demo_open 1 [(7, 1001, ''a''), (8, 1002, ''b'')] = Inr s'
          \<and> currentParticipants (tasks s' 1) = 2
          \<and> completed (taskCompletions s' 1 7) \<and> completed (taskCompletions s' 1 8)
          \<and> completeTask s' 9 1003 1 ''c'' = Inl TaskFull"
    using m [of "[(7, 1001, ''a''), (8, 1002, ''b'')]"] v by auto
  from t v have t1: "(completeTask demo_open 9 1003 1 ''c'' = Inl TaskFull) = False"
    by simp
  from t v have t2: "\<exists>s'. completeTask demo_open 9 1003 1 ''c'' = Inr s'
          \<and> completed (taskCompletions s' 1 9) \<and> \<not> verified (taskCompletions s' 1 9)
          \<and> unat (currentParticipants (tasks s' 1)) = 1"
    by simp
  show ?thesis using t1 t2 m2 by blast
qed

section \<open>TaskRegistry: the status of a task\<close>

lemma registry_step_status:
  assumes "registry_step s sender now c = Inr s'"
  shows "status (tasks s' tid) =
     (case c of
        UpdateTaskStatus t st \<Rightarrow> if t = tid then st else status (tasks s tid)
      | CreateTask nm descr cat reward token maxP duration criteria kyc thr \<Rightarrow>
          if tid = nextTaskId s then ACTIVE else status (tasks s tid)
      | _ \<Rightarrow> status (tasks s tid))"
  using assms
  by (cases c)
     (auto simp: step_defs bind_err_def checked_add_def Let_def split: if_splits sum.splits)

text \<open>
  The task of the first deployment is set to COMPLETED by the owner, and the owner's next
  status update brings it back to ACTIVE.
\<close>

theorem updateTaskStatus_leaves_terminal_state:
  "status (tasks (registry_run demo_registry [(1, 1100, UpdateTaskStatus 1 COMPLETED)]) 1)
      = COMPLETED
   \<and> \<not> isl (updateTaskStatus
          (registry_run demo_registry [(1, 1100, UpdateTaskStatus 1 COMPLETED)]) 1 1 ACTIVE)
   \<and> status (tasks (projr (updateTaskStatus
          (registry_run demo_registry [(1, 1100, UpdateTaskStatus 1 COMPLETED)]) 1 1 ACTIVE)) 1)
      = ACTIVE"
  by (simp add: registry_eval)

text \<open>
  Claim C8, as the code has it. The status of a task changes only through
  \<open>updateTaskStatus\<close> (and \<open>createTask\<close> writes ACTIVE into the slot of the id it
  allocates); every other operation leaves the status of every task as it was.
  \<open>updateTaskStatus\<close>, called by the owner for an id below \<open>nextTaskId\<close>, stores whatever
  status it is given, whatever the status was, COMPLETED and CANCELLED included; called by
  the owner for an id that is not below \<open>nextTaskId\<close> it fails with "Task does not
  exist", and any other caller is refused.
\<close>

theorem updateTaskStatus_unrestricted:
  "(sender = owner s \<and> tid < nextTaskId s \<longrightarrow>
      (\<exists>s''. updateTaskStatus s sender tid st = Inr s'' \<and> status (tasks s'' tid) = st))
   \<and> (sender = owner s \<and> \<not> tid < nextTaskId s \<longrightarrow>
      updateTaskStatus s sender tid st = Inl TaskDoesNotExist)
   \<and> (sender \<noteq> owner s \<longrightarrow> updateTaskStatus s sender tid st = Inl OwnableUnauthorizedAccount)
   \<and> (registry_step s sender now c = Inr s' \<longrightarrow>
        status (tasks s' tid) =
          (case c of
             UpdateTaskStatus t st' \<Rightarrow> if t = tid then st' else status (tasks s tid)
           | CreateTask nm descr cat reward token maxP duration criteria kyc thr \<Rightarrow>
               if tid = nextTaskId s then ACTIVE else status (tasks s tid)
           | _ \<Rightarrow> status (tasks s tid)))"
  using registry_step_status [of s sender now c s' tid]
  by (simp add: updateTaskStatus_def)

theorem updateTaskStatus_unrestricted_witness:
  "(\<exists>s''. updateTaskStatus
            (registry_run demo_registry [(1, 1100, UpdateTaskStatus 1 CANCELLED)]) 1 1 PAUSED
          = Inr s'' \<and> status (tasks s'' 1) = PAUSED)
   \<and> updateTaskStatus demo_registry 1 2 PAUSED = Inl TaskDoesNotExist
   \<and> updateTaskStatus demo_registry 7 1 PAUSED = Inl OwnableUnauthorizedAccount
   \<and> status (tasks demo_verified 1) = status (tasks demo_registry 1)"
  using updateTaskStatus_unrestricted
      [of 1 "registry_run demo_registry [(1, 1100, UpdateTaskStatus 1 CANCELLED)]" 1 PAUSED]
    updateTaskStatus_unrestricted [of 1 demo_registry 2 PAUSED]
    updateTaskStatus_unrestricted [of 7 demo_registry 1 PAUSED]
    updateTaskStatus_unrestricted
      [of 2 demo_registry 1 PAUSED 1002 "VerifyTaskCompletion 1 7 True 80" demo_verified]
  by (simp add: registry_eval)

section \<open>TaskRegistry: the verified flag\<close>

lemma registry_step_verified:
  assumes "registry_step s sender now c = Inr s'" and "completed (taskCompletions s tid u)"
  shows "completed (taskCompletions s' tid u) \<and> verified (taskCompletions s' tid u) =
     (case c of
        VerifyTaskCompletion t w vfd score \<Rightarrow>
          if t = tid \<and> w = u then vfd else verified (taskCompletions s tid u)
      | _ \<Rightarrow> verified (taskCompletions s tid u))"
  using assms
  by (cases c)
     (auto simp: step_defs bind_err_def checked_add_def Let_def split: if_splits sum.splits)

text \<open>
  After the passing verdict of the first deployment the flag is true; a negative verdict
  for the same task and participant is accepted and sets it back to false.
\<close>

theorem verifyTaskCompletion_resets_verified:
  "verified (taskCompletions demo_verified 1 7)
   \<and> \<not> isl (verifyTaskCompletion demo_verified 2 1 7 False 80)
   \<and> \<not> verified (taskCompletions (projr (verifyTaskCompletion demo_verified 2 1 7 False 80)) 1 7)"
  by (simp add: registry_eval)

text \<open>
  Claim C9, as the code has it. For a task and participant with a completion record, the
  record stays and its \<open>verified\<close> flag is changed by no operation other than
  \<open>verifyTaskCompletion\<close> for that pair, which overwrites the flag with the verdict it is
  given on every successful call: a negative verdict from the oracle always succeeds and
  leaves the flag false, also after a positive one.
\<close>

theorem verified_flag_follows_last_verdict:
  "(registry_step s sender now c = Inr s' \<and> completed (taskCompletions s tid u) \<longrightarrow>
      completed (taskCompletions s' tid u)
      \<and> verified (taskCompletions s' tid u) =
          (case c of
             VerifyTaskCompletion t w vfd sc \<Rightarrow>
               if t = tid \<and> w = u then vfd else verified (taskCompletions s tid u)
           | _ \<Rightarrow> verified (taskCompletions s tid u)))
   \<and> (sender = verificationOracle s \<and> completed (taskCompletions s tid u) \<longrightarrow>
      (\<exists>s''. verifyTaskCompletion s sender tid u False score = Inr s''
          \<and> \<not> verified (taskCompletions s'' tid u)))"
  using registry_step_verified [of s sender now c s' tid u]
  by (simp add: verifyTaskCompletion_def)

theorem verified_flag_follows_last_verdict_witness:
  "completed (taskCompletions (registry_tx demo_verified (1, 1100, UpdateTaskStatus 1 PAUSED)) 1 7)
   \<and> verified (taskCompletions (registry_tx demo_verified (1, 1100, UpdateTaskStatus 1 PAUSED)) 1 7)
   \<and> (\<exists>s''. verifyTaskCompletion demo_verified 2 1 7 False 30 = Inr s''
          \<and> \<not> verified (taskCompletions s'' 1 7))"
proof -
  have st: "registry_step demo_verified 1 1100 (UpdateTaskStatus 1 PAUSED)
      = Inr (registry_tx demo_verified (1, 1100, UpdateTaskStatus 1 PAUSED))"
    by (simp add: registry_eval)
  have v: "completed (taskCompletions demo_verified 1 7)" "verified (taskCompletions demo_verified 1 7)"
    "verificationOracle demo_verified = 2"
    by (simp_all add: registry_eval)
  show ?thesis
    using verified_flag_follows_last_verdict
        [of demo_verified 1 1100 "UpdateTaskStatus 1 PAUSED"
            "registry_tx demo_verified (1, 1100, UpdateTaskStatus 1 PAUSED)" 1 7]
      verified_flag_follows_last_verdict [of demo_verified 2 1100 "RenounceOwnership" demo_verified 1 7 30]
      st v
    by simp
qed

section \<open>VerifierGateway: request ids\<close>

lemma constructor_processed_below_next: "processed_below_next (gateway_constructor a b)"
  by (simp add: processed_below_next_def gateway_constructor_def zero_VerificationRequest_def)

lemma gateway_step_processed_below_next:
  assumes "gateway_step s sender now c = Inr s'" and "processed_below_next s"
  shows "processed_below_next s'"
  using assms
  by (cases c)
     (auto simp: gateway_defs processed_below_next_def bind_err_def checked_add_def Let_def
        word_less_succ split: if_splits sum.splits)

lemma gateway_tx_processed_below_next:
  "processed_below_next s \<Longrightarrow> processed_below_next (gateway_tx s t)"
  by (auto simp: gateway_tx_def split: sum.splits dest: gateway_step_processed_below_next)

text \<open>
  In every storage reached from the constructor a processed request has an id below
  \<open>nextRequestId\<close>.
\<close>

lemma gateway_run_processed_below_next:
  "processed_below_next s \<Longrightarrow> processed_below_next (gateway_run s ts)"
  by (induction ts arbitrary: s) (simp_all add: gateway_tx_processed_below_next)

lemma reachable_processed_below_next:
  "processed_below_next (gateway_run (gateway_constructor a b) ts)"
  by (rule gateway_run_processed_below_next [OF constructor_processed_below_next])

section \<open>VerifierGateway: who may deliver a verdict\<close>

text \<open>
  Request 1 of the demo gateway is an on-chain proof, and the oracle registered for
  on-chain proofs is 11. Oracle 12, registered for social proofs only, delivers the
  verdict for request 1 and is accepted.
\<close>

theorem completeVerification_other_category:
  "verificationType (verificationRequests demo_gateway 1) = ONCHAIN_TRANSACTION
   \<and> oracleAddresses demo_gateway ONCHAIN_TRANSACTION = 11
   \<and> oracleAddresses demo_gateway OFFCHAIN_SOCIAL = 12
   \<and> \<not> isl (completeVerification demo_gateway 12 1002 1 True 80 ''0xd2'')
   \<and> processed (verificationRequests
        (projr (completeVerification demo_gateway 12 1002 1 True 80 ''0xd2'')) 1)
   \<and> verifier (result (verificationRequests
        (projr (completeVerification demo_gateway 12 1002 1 True 80 ''0xd2'')) 1)) = 12"
  by (simp add: gateway_eval)

text \<open>
  Claim C4, as the code has it. \<open>completeVerification\<close> succeeds only when the caller is
  flagged in \<open>authorizedOracles\<close>, and any other caller is rejected with "Only authorized
  oracles can complete verification". The flag is all that is asked of the caller: an
  authorized oracle delivers the verdict of an open request of any category, with the
  category of the request unchanged and the caller recorded as the verifier.
\<close>

theorem completeVerification_authorization:
  "(\<not> authorizedOracles s sender \<longrightarrow>
       completeVerification s sender now rid vfd score hash = Inl OnlyAuthorizedOracles)
   \<and> (completeVerification s sender now rid vfd score hash = Inr s' \<longrightarrow>
       authorizedOracles s sender)
   \<and> (authorizedOracles s sender \<and> rid < nextRequestId s
        \<and> \<not> processed (verificationRequests s rid) \<and> score \<le> 100
        \<and> unat (oracleNonces s sender) + 1 < 2 ^ 256 \<longrightarrow>
       (\<exists>s''. completeVerification s sender now rid vfd score hash = Inr s''
          \<and> processed (verificationRequests s'' rid)
          \<and> verifier (result (verificationRequests s'' rid)) = sender
          \<and> verificationType (verificationRequests s'' rid)
               = verificationType (verificationRequests s rid)))"
  by (auto simp: completeVerification_def bind_err_def checked_add_def split: if_splits)

theorem completeVerification_authorization_witness:
  "completeVerification demo_gateway 99 1002 1 True 80 ''0xd2'' = Inl OnlyAuthorizedOracles
   \<and> authorizedOracles demo_gateway 11
   \<and> (\<exists>s''. completeVerification demo_gateway 12 1002 1 True 80 ''0xd2'' = Inr s''
          \<and> processed (verificationRequests s'' 1)
          \<and> verifier (result (verificationRequests s'' 1)) = 12
          \<and> verificationType (verificationRequests s'' 1) = ONCHAIN_TRANSACTION)"
  using completeVerification_authorization [of demo_gateway 99 1002 1 True 80 "''0xd2''"]
    completeVerification_authorization [of demo_gateway 12 1002 1 True 80 "''0xd2''"]
    completeVerification_authorization
      [of demo_gateway 11 1002 1 True 80 "''0xd1''" demo_gateway_answered]
    demo_gateway_facts
  by (simp add: demo_gateway_answered_def gateway_tx_def)

section \<open>VerifierGateway: rejected deliveries\<close>

text \<open>
  What \<open>completeVerification\<close> refuses. For a caller flagged in \<open>authorizedOracles\<close>: a
  delivery for a request below \<open>nextRequestId\<close> whose \<open>processed\<close> flag is true fails with
  "Request already processed"; a delivery for an id that is not below \<open>nextRequestId\<close>
  fails with "Invalid request ID"; a delivery with a score above 100 for an open request
  fails with "Invalid sybil score". For any caller each of the three fails, and the
  transaction leaves the whole storage of the gateway as it was.
\<close>

lemma completeVerification_rejections:
  "(authorizedOracles s sender \<and> rid < nextRequestId s \<and> processed (verificationRequests s rid)
       \<longrightarrow> completeVerification s sender now rid vfd score hash = Inl RequestAlreadyProcessed)
   \<and> (authorizedOracles s sender \<and> \<not> rid < nextRequestId s
       \<longrightarrow> completeVerification s sender now rid vfd score hash = Inl InvalidRequestId)
   \<and> (authorizedOracles s sender \<and> rid < nextRequestId s
        \<and> \<not> processed (verificationRequests s rid) \<and> 100 < score
       \<longrightarrow> completeVerification s sender now rid vfd score hash = Inl InvalidSybilScore)
   \<and> (processed (verificationRequests s rid) \<or> \<not> rid < nextRequestId s \<or> 100 < score
       \<longrightarrow> isl (completeVerification s sender now rid vfd score hash)
           \<and> gateway_tx s (sender, now, CompleteVerification rid vfd score hash) = s)"
  by (auto simp: completeVerification_def gateway_tx_def)

text \<open>
  In every storage reached from the constructor, a second delivery by an authorized oracle
  for a processed request fails with "Request already processed" and changes nothing.
\<close>

lemma completeVerification_processed_reachable:
  assumes "authorizedOracles (gateway_run (gateway_constructor a b) ts) sender"
      and "processed (verificationRequests (gateway_run (gateway_constructor a b) ts) rid)"
  shows "completeVerification (gateway_run (gateway_constructor a b) ts) sender now rid vfd score hash
           = Inl RequestAlreadyProcessed
     \<and> gateway_tx (gateway_run (gateway_constructor a b) ts)
           (sender, now, CompleteVerification rid vfd score hash)
           = gateway_run (gateway_constructor a b) ts"
proof -
  have "rid < nextRequestId (gateway_run (gateway_constructor a b) ts)"
    using reachable_processed_below_next [of a b ts] assms(2)
    by (simp add: processed_below_next_def)
  then show ?thesis
    using assms by (simp add: completeVerification_def gateway_tx_def)
qed

lemma completeVerification_rejections_demo:
  "completeVerification demo_gateway_answered 11 1003 1 False 10 ''0xd3''
      = Inl RequestAlreadyProcessed
   \<and> completeVerification demo_gateway_answered 11 1003 2 True 80 ''0xd3'' = Inl InvalidRequestId
   \<and> completeVerification demo_gateway 11 1003 1 True 101 ''0xd3'' = Inl InvalidSybilScore
   \<and> gateway_tx demo_gateway_answered (12, 1003, CompleteVerification 1 False 10 ''0xd3'')
        = demo_gateway_answered"
  by (simp add: gateway_eval)

text \<open>
  Claim C5. A delivery for a request id that was never allocated must fail with "Invalid
  request ID", and the contract checks for it with \<open>_requestId < nextRequestId\<close>. Request
  ids are allocated from 1, so the id 0 is never allocated and yet passes the check: in the
  demo gateway, where request 1 is the only one filed and the slot 0 has never been
  written, the authorized oracle 11 delivers a verdict for the id 0 and is accepted. The
  call does not fail, marks the slot 0 processed, records the verdict in it and advances
  the nonce of the oracle.
\<close>

theorem completeVerification_request_zero:
  "nextRequestId (gateway_constructor 1 5) = 1
   \<and> nextRequestId demo_gateway = 2
   \<and> verificationRequests demo_gateway 0 = zero_VerificationRequest
   \<and> authorizedOracles demo_gateway 11
   \<and> oracleNonces demo_gateway 11 = 0
   \<and> \<not> isl (completeVerification demo_gateway 11 1003 0 True 80 ''0xd0'')
   \<and> completeVerification demo_gateway 11 1003 0 True 80 ''0xd0'' \<noteq> Inl InvalidRequestId
   \<and> processed (verificationRequests
        (projr (completeVerification demo_gateway 11 1003 0 True 80 ''0xd0'')) 0)
   \<and> res_verified (result (verificationRequests
        (projr (completeVerification demo_gateway 11 1003 0 True 80 ''0xd0'')) 0))
   \<and> oracleNonces (projr (completeVerification demo_gateway 11 1003 0 True 80 ''0xd0'')) 11 = 1"
  by (simp add: gateway_eval)

section \<open>PayoutSplitter: the weights\<close>

text \<open>
  Claim C3. The four weights of the contract add up to 11000 basis points, not 10000: a
  reward of 10000 is split into shares of 6000, 2500, 1500 and 1000, which is 11000 in
  all.
\<close>

theorem distribution_weights_sum:
  "unat TASK_COMPLETER_PERCENT + unat DIRECT_REFERRER_PERCENT
     + unat INDIRECT_REFERRER_PERCENT + unat PLATFORM_FEE_PERCENT = 11000
   \<and> calculateDistribution 10000 = Inr \<lparr> taskCompleterReward = 6000,
        directReferrerReward = 2500, indirectReferrerReward = 1500, platformFee = 1000 \<rparr>"
  by (simp add: splitter_eval)

section \<open>PayoutSplitter: the four shares\<close>

text \<open>
  A reward of one unit: every product is below 10000, every share is 0, and the unit is in
  none of them.
\<close>

theorem calculateDistribution_drops_remainder:
  "calculateDistribution 1 = Inr \<lparr> taskCompleterReward = 0, directReferrerReward = 0,
             indirectReferrerReward = 0, platformFee = 0 \<rparr>
   \<and> unat (taskCompleterReward (projr (calculateDistribution 1)))
      + unat (directReferrerReward (projr (calculateDistribution 1)))
      + unat (indirectReferrerReward (projr (calculateDistribution 1)))
      + unat (platformFee (projr (calculateDistribution 1))) \<noteq> unat (1 :: uint256)"
  by (simp add: splitter_eval)

lemma calculateDistribution_shares:
  assumes "unat g * unat TASK_COMPLETER_PERCENT < 2 ^ 256"
  shows "\<exists>d. calculateDistribution g = Inr d
     \<and> unat (taskCompleterReward d) = unat g * unat TASK_COMPLETER_PERCENT div 10000
     \<and> unat (directReferrerReward d) = unat g * unat DIRECT_REFERRER_PERCENT div 10000
     \<and> unat (indirectReferrerReward d) = unat g * unat INDIRECT_REFERRER_PERCENT div 10000
     \<and> unat (platformFee d) = unat g * unat PLATFORM_FEE_PERCENT div 10000
     \<and> 10000 * (unat (taskCompleterReward d) + unat (directReferrerReward d)
                 + unat (indirectReferrerReward d) + unat (platformFee d))
         \<le> unat g * (unat TASK_COMPLETER_PERCENT + unat DIRECT_REFERRER_PERCENT
                      + unat INDIRECT_REFERRER_PERCENT + unat PLATFORM_FEE_PERCENT)
     \<and> unat g * (unat TASK_COMPLETER_PERCENT + unat DIRECT_REFERRER_PERCENT
                      + unat INDIRECT_REFERRER_PERCENT + unat PLATFORM_FEE_PERCENT)
         < 10000 * (unat (taskCompleterReward d) + unat (directReferrerReward d)
                 + unat (indirectReferrerReward d) + unat (platformFee d) + 4)"
proof -
  have c: "unat g * unat TASK_COMPLETER_PERCENT < 2 ^ 256" by (rule assms)
  have le: "unat g * 2500 \<le> unat g * 6000" "unat g * 1500 \<le> unat g * 6000"
    "unat g * 1000 \<le> unat g * 6000" by simp_all
  have d: "unat g * unat DIRECT_REFERRER_PERCENT < 2 ^ 256"
    and i: "unat g * unat INDIRECT_REFERRER_PERCENT < 2 ^ 256"
    and p: "unat g * unat PLATFORM_FEE_PERCENT < 2 ^ 256"
    using c le
    by (simp_all add: TASK_COMPLETER_PERCENT_def DIRECT_REFERRER_PERCENT_def
          INDIRECT_REFERRER_PERCENT_def PLATFORM_FEE_PERCENT_def)
  define dist where "dist = \<lparr> taskCompleterReward = g * TASK_COMPLETER_PERCENT div 10000,
     directReferrerReward = g * DIRECT_REFERRER_PERCENT div 10000,
     indirectReferrerReward = g * INDIRECT_REFERRER_PERCENT div 10000,
     platformFee = g * PLATFORM_FEE_PERCENT div 10000 \<rparr>"
  have r: "calculateDistribution g = Inr dist"
    using c d i p by (simp add: calculateDistribution_def checked_mul_def bind_err_def dist_def)
  have s1: "unat (taskCompleterReward dist) = unat g * unat TASK_COMPLETER_PERCENT div 10000"
    using unat_share [OF c] by (simp add: dist_def)
  have s2: "unat (directReferrerReward dist) = unat g * unat DIRECT_REFERRER_PERCENT div 10000"
    using unat_share [OF d] by (simp add: dist_def)
  have s3: "unat (indirectReferrerReward dist) = unat g * unat INDIRECT_REFERRER_PERCENT div 10000"
    using unat_share [OF i] by (simp add: dist_def)
  have s4: "unat (platformFee dist) = unat g * unat PLATFORM_FEE_PERCENT div 10000"
    using unat_share [OF p] by (simp add: dist_def)
  have lower: "10000 * (unat (taskCompleterReward dist) + unat (directReferrerReward dist)
                 + unat (indirectReferrerReward dist) + unat (platformFee dist))
         \<le> unat g * (unat TASK_COMPLETER_PERCENT + unat DIRECT_REFERRER_PERCENT
                      + unat INDIRECT_REFERRER_PERCENT + unat PLATFORM_FEE_PERCENT)"
    using floor_bounds [of "unat g * unat TASK_COMPLETER_PERCENT"]
      floor_bounds [of "unat g * unat DIRECT_REFERRER_PERCENT"]
      floor_bounds [of "unat g * unat INDIRECT_REFERRER_PERCENT"]
      floor_bounds [of "unat g * unat PLATFORM_FEE_PERCENT"]
    unfolding s1 s2 s3 s4 by (simp add: algebra_simps)
  have upper: "unat g * (unat TASK_COMPLETER_PERCENT + unat DIRECT_REFERRER_PERCENT
                      + unat INDIRECT_REFERRER_PERCENT + unat PLATFORM_FEE_PERCENT)
         < 10000 * (unat (taskCompleterReward dist) + unat (directReferrerReward dist)
                 + unat (indirectReferrerReward dist) + unat (platformFee dist) + 4)"
    using floor_bounds [of "unat g * unat TASK_COMPLETER_PERCENT"]
      floor_bounds [of "unat g * unat DIRECT_REFERRER_PERCENT"]
      floor_bounds [of "unat g * unat INDIRECT_REFERRER_PERCENT"]
      floor_bounds [of "unat g * unat PLATFORM_FEE_PERCENT"]
    unfolding s1 s2 s3 s4 by (simp add: algebra_simps)
  show ?thesis using r s1 s2 s3 s4 lower upper by blast
qed

text \<open>
  Claim C2, as the code has it. For every gross amount whose product with the largest
  weight fits in 256 bits, each of the four shares is the gross amount times the weight of
  the share, divided by 10000 and rounded down. No remainder is given to any share: times
  10000, the sum of the four shares is at most the gross amount times the sum of the four
  weights, and less than four times 10000 below it. For any larger gross amount the
  computation aborts on the overflow of the first product.
\<close>

theorem calculateDistribution_rounds_down:
  "(if unat g * unat TASK_COMPLETER_PERCENT < 2 ^ 256
    then \<exists>d. calculateDistribution g = Inr d
         \<and> unat (taskCompleterReward d) = unat g * unat TASK_COMPLETER_PERCENT div 10000
         \<and> unat (directReferrerReward d) = unat g * unat DIRECT_REFERRER_PERCENT div 10000
         \<and> unat (indirectReferrerReward d) = unat g * unat INDIRECT_REFERRER_PERCENT div 10000
         \<and> unat (platformFee d) = unat g * unat PLATFORM_FEE_PERCENT div 10000
         \<and> 10000 * (unat (taskCompleterReward d) + unat (directReferrerReward d)
                     + unat (indirectReferrerReward d) + unat (platformFee d))
             \<le> unat g * (unat TASK_COMPLETER_PERCENT + unat DIRECT_REFERRER_PERCENT
                          + unat INDIRECT_REFERRER_PERCENT + unat PLATFORM_FEE_PERCENT)
         \<and> unat g * (unat TASK_COMPLETER_PERCENT + unat DIRECT_REFERRER_PERCENT
                          + unat INDIRECT_REFERRER_PERCENT + unat PLATFORM_FEE_PERCENT)
             < 10000 * (unat (taskCompleterReward d) + unat (directReferrerReward d)
                     + unat (indirectReferrerReward d) + unat (platformFee d) + 4)
    else calculateDistribution g = Inl PanicOverflow)"
  using calculateDistribution_shares [of g]
  by (simp add: calculateDistribution_def checked_mul_def bind_err_def)

theorem calculateDistribution_rounds_down_witness:
  "\<exists>d. calculateDistribution 3 = Inr d
     \<and> unat (taskCompleterReward d) = 1
     \<and> unat (directReferrerReward d) = 0
     \<and> unat (indirectReferrerReward d) = 0
     \<and> unat (platformFee d) = 0"
  using calculateDistribution_rounds_down [of 3]
  by (auto simp add: TASK_COMPLETER_PERCENT_def DIRECT_REFERRER_PERCENT_def
          INDIRECT_REFERRER_PERCENT_def PLATFORM_FEE_PERCENT_def)

section \<open>PayoutSplitter: the transfers of a settlement\<close>

lemma same_chains_refl: "same_chains s s"
  by (simp add: same_chains_def)

lemma same_chains_trans: "same_chains s s1 \<Longrightarrow> same_chains s1 s2 \<Longrightarrow> same_chains s s2"
  by (simp add: same_chains_def)

lemma add_totalEarnings_chains: "add_totalEarnings s a v = Inr s' \<Longrightarrow> same_chains s s'"
  by (auto simp: add_totalEarnings_def bind_err_def same_chains_def split: sum.splits)

lemma add_directEarnings_chains: "add_directEarnings s a v = Inr s' \<Longrightarrow> same_chains s s'"
  by (auto simp: add_directEarnings_def bind_err_def same_chains_def split: sum.splits)

lemma add_indirectEarnings_chains: "add_indirectEarnings s a v = Inr s' \<Longrightarrow> same_chains s s'"
  by (auto simp: add_indirectEarnings_def bind_err_def same_chains_def split: sum.splits)

lemma safeTransfer_log:
  "safeTransfer tok a b v = Inr tok' \<Longrightarrow> transfers tok' = transfers tok @ [(a, b, v)]"
  by (auto simp: safeTransfer_def Let_def split: if_splits)

lemma pay_indirect_log:
  "pay_indirect rs per this s tok = Inr (s', tok') \<Longrightarrow>
     transfers tok' = transfers tok @ map (\<lambda>r. (this, r, per)) (filter (\<lambda>r. r \<noteq> 0) rs)
     \<and> same_chains s s'"
proof (induction rs arbitrary: s tok)
  case Nil
  then show ?case by (simp add: same_chains_refl)
next
  case (Cons r rs)
  show ?case
  proof (cases "r = 0")
    case True
    then show ?thesis using Cons by simp
  next
    case False
    from Cons.prems False obtain tok1 where
      t: "safeTransfer tok this r per = Inr tok1"
      and r1: "bind_err (add_totalEarnings s r per) (\<lambda>s1.
        bind_err (add_indirectEarnings s1 r per) (\<lambda>s2.
          pay_indirect rs per this s2 tok1)) = Inr (s', tok')"
      by (auto dest: bind_err_Inr)
    from r1 obtain s1 where
      a1: "add_totalEarnings s r per = Inr s1"
      and r2: "bind_err (add_indirectEarnings s1 r per) (\<lambda>s2.
          pay_indirect rs per this s2 tok1) = Inr (s', tok')"
      by (auto dest: bind_err_Inr)
    from r2 obtain s2 where
      a2: "add_indirectEarnings s1 r per = Inr s2"
      and r3: "pay_indirect rs per this s2 tok1 = Inr (s', tok')"
      by (auto dest: bind_err_Inr)
    have ih: "transfers tok' = transfers tok1 @ map (\<lambda>r. (this, r, per)) (filter (\<lambda>r. r \<noteq> 0) rs)"
      and ch: "same_chains s2 s'"
      using Cons.IH [OF r3] by simp_all
    have "same_chains s s'"
      using add_totalEarnings_chains [OF a1] add_indirectEarnings_chains [OF a2] ch
      by (blast intro: same_chains_trans)
    then show ?thesis using ih safeTransfer_log [OF t] False by simp
  qed
qed

lemma pay_completer_log:
  "pay_completer dist this completer s tok = Inr (s', tok') \<Longrightarrow>
     transfers tok' = transfers tok @
       (if taskCompleterReward dist > 0 then [(this, completer, taskCompleterReward dist)] else [])
     \<and> same_chains s s'"
  by (auto simp: pay_completer_def same_chains_refl split: if_splits
      dest!: bind_err_Inr dest: safeTransfer_log add_totalEarnings_chains)

lemma pay_direct_log:
  "pay_direct dist this completer s tok = Inr (s', tok') \<Longrightarrow>
     transfers tok' = transfers tok @
       (if directReferrer (referrals s completer) \<noteq> 0 \<and> directReferrerReward dist > 0
        then [(this, directReferrer (referrals s completer), directReferrerReward dist)] else [])
     \<and> same_chains s s'"
  by (auto simp: pay_direct_def Let_def same_chains_refl split: if_splits
      dest!: bind_err_Inr dest: safeTransfer_log
      intro: same_chains_trans add_totalEarnings_chains add_directEarnings_chains)

lemma pay_indirect_levels_log:
  "pay_indirect_levels dist this completer s tok = Inr (s', tok') \<Longrightarrow>
     transfers tok' = transfers tok @
       (if indirectReferrerReward dist > 0
        then map (\<lambda>r. (this, r, indirectReferrerReward dist div MAX_REFERRAL_LEVELS))
               (filter (\<lambda>r. r \<noteq> 0) (indirectReferrers (referrals s completer)))
        else [])
     \<and> same_chains s s'"
  by (auto simp: pay_indirect_levels_def same_chains_refl split: if_splits dest: pay_indirect_log)

lemma pay_platform_log:
  "pay_platform dist this s tok = Inr (s', tok') \<Longrightarrow>
     transfers tok' = transfers tok @
       (if platformFee dist > 0 then [(this, platformWallet s, platformFee dist)] else [])
     \<and> same_chains s s'"
  by (auto simp: pay_platform_def same_chains_refl split: if_splits
      dest!: bind_err_Inr dest: safeTransfer_log)

lemma disbursed_append: "disbursed (xs @ ys) = disbursed xs + disbursed ys"
  by (induction xs) simp_all

lemma disbursed_levels: "disbursed (map (\<lambda>r. (this, r, per)) rs) = unat per * length rs"
  by (induction rs) simp_all

lemma zero_third: "(0::uint256) div MAX_REFERRAL_LEVELS = 0"
  by (simp add: MAX_REFERRAL_LEVELS_def)

text \<open>
  A settlement of 10000 for participant 7, who has no referrer at all, out of a balance of
  20000: the participant is sent 6000 and the platform wallet its fee of 1000, nothing
  more. The shares of the absent referrers, 4000 in all, are sent to nobody and stay in
  the balance of the contract; 7000 is disbursed, not 10000.
\<close>

theorem distributePayout_absent_tiers_withheld:
  "directReferrer (referrals demo_splitter 7) = 0
   \<and> indirectReferrers (referrals demo_splitter 7) = []
   \<and> balanceOf demo_token 4 = 20000
   \<and> \<not> isl (distributePayout demo_splitter demo_token 4 5 7 1 10000 9)
   \<and> transfers (snd (projr (distributePayout demo_splitter demo_token 4 5 7 1 10000 9)))
        = [(4, 7, 6000), (4, 6, 1000)]
   \<and> balanceOf (snd (projr (distributePayout demo_splitter demo_token 4 5 7 1 10000 9))) 6 = 1000
   \<and> balanceOf (snd (projr (distributePayout demo_splitter demo_token 4 5 7 1 10000 9))) 4 = 13000
   \<and> disbursed (transfers (snd (projr (distributePayout demo_splitter demo_token 4 5 7 1 10000 9))))
        = 7000"
  by (simp add: splitter_eval)

text \<open>
  Claim C6, as the code has it. In every settlement that succeeds, the transfers made are,
  in this order: the participant's share to the participant; the direct share to the direct
  referrer, if one is set; one third of the indirect share, rounded down, to each entry of
  the participant's list of indirect referrers that is set; the platform fee to the
  platform wallet (each of them only when the share is not zero). The thirds of the tiers
  that are not set are transferred to nobody, the platform wallet included, so they stay
  with the contract, and the amount disbursed is the sum of the shares that were sent.
\<close>

theorem distributePayout_transfers:
  assumes "distributePayout s tok this sender completer tid totalReward tokenAddress
             = Inr (s', tok')"
  shows "\<exists>dist. calculateDistribution totalReward = Inr dist
     \<and> transfers tok' = transfers tok
         @ (if taskCompleterReward dist > 0
            then [(this, completer, taskCompleterReward dist)] else [])
         @ (if directReferrer (referrals s completer) \<noteq> 0 \<and> directReferrerReward dist > 0
            then [(this, directReferrer (referrals s completer), directReferrerReward dist)]
            else [])
         @ (if indirectReferrerReward dist > 0
            then map (\<lambda>r. (this, r, indirectReferrerReward dist div MAX_REFERRAL_LEVELS))
                   (filter (\<lambda>r. r \<noteq> 0) (indirectReferrers (referrals s completer)))
            else [])
         @ (if platformFee dist > 0 then [(this, platformWallet s, platformFee dist)] else [])
     \<and> disbursed (drop (length (transfers tok)) (transfers tok'))
         = unat (taskCompleterReward dist)
           + (if directReferrer (referrals s completer) \<noteq> 0
              then unat (directReferrerReward dist) else 0)
           + unat (indirectReferrerReward dist div MAX_REFERRAL_LEVELS)
               * length (filter (\<lambda>r. r \<noteq> 0) (indirectReferrers (referrals s completer)))
           + unat (platformFee dist)"
proof -
  from assms obtain dist r1 r2 r3 where
    d: "calculateDistribution totalReward = Inr dist"
    and p1: "pay_completer dist this completer s tok = Inr r1"
    and p2: "pay_direct dist this completer (fst r1) (snd r1) = Inr r2"
    and p3: "pay_indirect_levels dist this completer (fst r2) (snd r2) = Inr r3"
    and p4: "pay_platform dist this (fst r3) (snd r3) = Inr (s', tok')"
    by (auto simp: distributePayout_def split: if_splits dest!: bind_err_Inr)
  note l1 = pay_completer_log [of dist this completer s tok "fst r1" "snd r1"]
  note l2 = pay_direct_log [of dist this completer "fst r1" "snd r1" "fst r2" "snd r2"]
  note l3 = pay_indirect_levels_log [of dist this completer "fst r2" "snd r2" "fst r3" "snd r3"]
  note l4 = pay_platform_log [OF p4]
  have c1: "same_chains s (fst r1)" and t1: "transfers (snd r1) = transfers tok @
       (if taskCompleterReward dist > 0 then [(this, completer, taskCompleterReward dist)] else [])"
    using l1 p1 by simp_all
  have c2: "same_chains (fst r1) (fst r2)" and t2: "transfers (snd r2) = transfers (snd r1) @
       (if directReferrer (referrals (fst r1) completer) \<noteq> 0 \<and> directReferrerReward dist > 0
        then [(this, directReferrer (referrals (fst r1) completer), directReferrerReward dist)] else [])"
    using l2 p2 by simp_all
  have c3: "same_chains (fst r2) (fst r3)" and t3: "transfers (snd r3) = transfers (snd r2) @
       (if indirectReferrerReward dist > 0
        then map (\<lambda>r. (this, r, indirectReferrerReward dist div MAX_REFERRAL_LEVELS))
               (filter (\<lambda>r. r \<noteq> 0) (indirectReferrers (referrals (fst r2) completer)))
        else [])"
    using l3 p3 by simp_all
  have t4: "transfers tok' = transfers (snd r3) @
       (if platformFee dist > 0 then [(this, platformWallet (fst r3), platformFee dist)] else [])"
    using l4 by simp
  have e1: "directReferrer (referrals (fst r1) completer) = directReferrer (referrals s completer)"
    using c1 by (simp add: same_chains_def)
  have e2: "indirectReferrers (referrals (fst r2) completer) = indirectReferrers (referrals s completer)"
    using c1 c2 by (simp add: same_chains_def)
  have e3: "platformWallet (fst r3) = platformWallet s"
    using c1 c2 c3 by (simp add: same_chains_def)
  have log: "transfers tok' = transfers tok
         @ (if taskCompleterReward dist > 0
            then [(this, completer, taskCompleterReward dist)] else [])
         @ (if directReferrer (referrals s completer) \<noteq> 0 \<and> directReferrerReward dist > 0
            then [(this, directReferrer (referrals s completer), directReferrerReward dist)]
            else [])
         @ (if indirectReferrerReward dist > 0
            then map (\<lambda>r. (this, r, indirectReferrerReward dist div MAX_REFERRAL_LEVELS))
                   (filter (\<lambda>r. r \<noteq> 0) (indirectReferrers (referrals s completer)))
            else [])
         @ (if platformFee dist > 0 then [(this, platformWallet s, platformFee dist)] else [])"
    unfolding t4 t3 t2 t1 e1 e2 e3 by simp
  have z: "\<And>w::uint256. \<not> 0 < w \<Longrightarrow> unat w = 0"
    by (simp add: word_greater_zero_iff)
  have total: "disbursed (drop (length (transfers tok)) (transfers tok'))
         = unat (taskCompleterReward dist)
           + (if directReferrer (referrals s completer) \<noteq> 0
              then unat (directReferrerReward dist) else 0)
           + unat (indirectReferrerReward dist div MAX_REFERRAL_LEVELS)
               * length (filter (\<lambda>r. r \<noteq> 0) (indirectReferrers (referrals s completer)))
           + unat (platformFee dist)"
    unfolding log
    by (simp add: disbursed_append disbursed_levels z zero_third word_greater_zero_iff)
  show ?thesis using d log total by blast
qed

theorem distributePayout_transfers_witness:
  "\<exists>dist. calculateDistribution 10000 = Inr dist
     \<and> transfers (snd (projr (distributePayout demo_splitter_referred demo_token 4 5 7 1 10000 9)))
         = [(4, 7, 6000), (4, 21, 2500), (4, 22, 500), (4, 6, 1000)]
     \<and> disbursed (transfers (snd (projr
          (distributePayout demo_splitter_referred demo_token 4 5 7 1 10000 9)))) = 10000"
proof -
  have ok: "distributePayout demo_splitter_referred demo_token 4 5 7 1 10000 9
      = Inr (fst (projr (distributePayout demo_splitter_referred demo_token 4 5 7 1 10000 9)),
             snd (projr (distributePayout demo_splitter_referred demo_token 4 5 7 1 10000 9)))"
    by (simp add: splitter_eval)
  have dist: "calculateDistribution 10000 = Inr \<lparr> taskCompleterReward = 6000,
      directReferrerReward = 2500, indirectReferrerReward = 1500, platformFee = 1000 \<rparr>"
    by (simp add: splitter_eval)
  have st: "directReferrer (referrals demo_splitter_referred 7) = 21"
    "indirectReferrers (referrals demo_splitter_referred 7) = [22, 0, 0]"
    "platformWallet demo_splitter_referred = 6" "transfers demo_token = []"
    by (simp_all add: splitter_eval)
  show ?thesis
    using distributePayout_transfers [OF ok] dist st
    by (auto simp: MAX_REFERRAL_LEVELS_def)
qed

end
